theory Spec2Isabelle
  imports Complex_Main "HOL-Library.Word"
begin

unbundle bit_operations_syntax

section \<open>Platform primitives the audio code calls\<close>

text \<open>
  The two components (\<open>MessageBubble\<close>, streamed text-to-speech playback, and
  \<open>LiveVoiceModal\<close>, the duplex voice session) are TypeScript running in a browser.
  The browser functions they call are modelled here from their standards: \<open>btoa\<close> and
  \<open>atob\<close> (HTML, forgiving-base64), the typed-array constructors and element stores
  (ECMAScript), \<open>createBuffer\<close>, \<open>AudioBufferSourceNode.stop\<close> and
  \<open>AudioContext.close\<close> (Web Audio). JavaScript numbers are modelled as \<open>real\<close>:
  rounding of IEEE doubles is not part of the model, and \<open>NaN\<close> is modelled only where
  the code can produce it from real samples (the loudness of an empty frame). In the codec
  nothing is rounded for samples that are 32-bit floats: the product of such a sample
  with \<open>32767\<close> or \<open>32768\<close> is exact in a double, and so is a 16-bit integer divided by
  \<open>32768\<close>. A thrown exception is a value of \<open>js_error\<close>.
\<close>

datatype js_error = InvalidCharacterError | RangeError | NotSupportedError | InvalidStateError

type_synonym byte = "8 word"
type_synonym int16 = "16 word"

subsection \<open>Base64: \<open>btoa\<close> and \<open>atob\<close>\<close>

text \<open>
  A binary string is a string whose characters are the code units 0..255, which is what
  \<open>char\<close> holds. (A JavaScript string can hold code units above 255; \<open>atob\<close> rejects
  every such string, and \<open>btoa\<close> is only given strings built from bytes.) The alphabet
  is \<open>A-Z a-z 0-9 + /\<close>; \<open>b64_char\<close> maps a 6-bit value to its character and
  \<open>b64_value\<close> is the inverse lookup, \<open>None\<close> for a character outside the alphabet.
\<close>

definition b64_char :: "nat \<Rightarrow> char" where
  "b64_char n =
     (if n < 26 then char_of (65 + n)
      else if n < 52 then char_of (71 + n)
      else if n < 62 then char_of (n - 4)
      else if n = 62 then CHR ''+''
      else CHR ''/'')"

definition b64_value :: "char \<Rightarrow> nat option" where
  "b64_value c =
     (let k = (of_char c :: nat) in
      if 65 \<le> k \<and> k \<le> 90 then Some (k - 65)
      else if 97 \<le> k \<and> k \<le> 122 then Some (k - 71)
      else if 48 \<le> k \<and> k \<le> 57 then Some (k + 4)
      else if k = 43 then Some 62
      else if k = 47 then Some 63
      else None)"

text \<open>Three bytes make four 6-bit groups; a rest of two bytes makes three, of one byte two.\<close>

fun sextets :: "string \<Rightarrow> nat list" where
  "sextets (a # b # c # r) =
     [of_char a div 4,
      (of_char a mod 4) * 16 + of_char b div 16,
      (of_char b mod 16) * 4 + of_char c div 64,
      of_char c mod 64] @ sextets r"
| "sextets [a, b] =
     [of_char a div 4,
      (of_char a mod 4) * 16 + of_char b div 16,
      (of_char b mod 16) * 4]"
| "sextets [a] = [of_char a div 4, (of_char a mod 4) * 16]"
| "sextets [] = []"

definition btoa :: "string \<Rightarrow> string" where
  "btoa binary =
     map b64_char (sextets binary) @ replicate ((3 - length binary mod 3) mod 3) (CHR ''='')"

text \<open>
  \<open>atob\<close> is the forgiving decoder: ASCII whitespace is removed; when the length is then a
  multiple of 4, one or two trailing \<open>=\<close> are removed; a length of 1 modulo 4 or a
  character outside the alphabet fails (the browser throws \<open>InvalidCharacterError\<close>);
  leftover bits of the last group are discarded.
\<close>

definition ascii_whitespace :: "char \<Rightarrow> bool" where
  "ascii_whitespace c =
     (let k = (of_char c :: nat) in k = 9 \<or> k = 10 \<or> k = 12 \<or> k = 13 \<or> k = 32)"

fun strip_padding_rev :: "string \<Rightarrow> string" where
  "strip_padding_rev (c1 # c2 # r) =
     (if c1 = CHR ''='' then (if c2 = CHR ''='' then r else c2 # r) else c1 # c2 # r)"
| "strip_padding_rev r = r"

definition strip_padding :: "string \<Rightarrow> string" where
  "strip_padding d = (if length d mod 4 = 0 then rev (strip_padding_rev (rev d)) else d)"

fun octets :: "nat list \<Rightarrow> string" where
  "octets (s0 # s1 # s2 # s3 # r) =
     [char_of (s0 * 4 + s1 div 16),
      char_of ((s1 mod 16) * 16 + s2 div 4),
      char_of ((s2 mod 4) * 64 + s3)] @ octets r"
| "octets [s0, s1, s2] =
     [char_of (s0 * 4 + s1 div 16), char_of ((s1 mod 16) * 16 + s2 div 4)]"
| "octets [s0, s1] = [char_of (s0 * 4 + s1 div 16)]"
| "octets [s0] = []"
| "octets [] = []"

fun b64_values :: "string \<Rightarrow> nat list option" where
  "b64_values [] = Some []"
| "b64_values (c # cs) =
     (case b64_value c of
        None \<Rightarrow> None
      | Some v \<Rightarrow> (case b64_values cs of None \<Rightarrow> None | Some vs \<Rightarrow> Some (v # vs)))"

definition atob :: "string \<Rightarrow> string option" where
  "atob encoded =
     (let d = strip_padding (filter (\<lambda>c. \<not> ascii_whitespace c) encoded) in
      if length d mod 4 = 1 then None
      else (case b64_values d of None \<Rightarrow> None | Some vs \<Rightarrow> Some (octets vs)))"

subsection \<open>Typed arrays\<close>

text \<open>
  Storing a number into an \<open>Int16Array\<close> truncates it towards zero and keeps the low 16
  bits (\<open>ToInt16\<close>); reading an element gives its value as a signed number.
  \<open>new Uint8Array(int16.buffer)\<close> reads each element as two bytes, low byte first (the
  byte order of every platform the code runs on), and \<open>new Int16Array(bytes.buffer)\<close>
  pairs bytes the same way, throwing \<open>RangeError\<close> when the byte length is odd.
\<close>

definition trunc :: "real \<Rightarrow> int" where
  "trunc x = (if x < 0 then \<lceil>x\<rceil> else \<lfloor>x\<rfloor>)"

definition to_int16 :: "real \<Rightarrow> int16" where
  "to_int16 x = word_of_int (trunc x)"

definition from_int16 :: "int16 \<Rightarrow> real" where
  "from_int16 w = real_of_int (sint w)"

definition int16_bytes :: "int16 \<Rightarrow> byte list" where
  "int16_bytes w = [ucast w, ucast (drop_bit 8 w)]"

definition int16_of_bytes :: "byte \<Rightarrow> byte \<Rightarrow> int16" where
  "int16_of_bytes lo hi = push_bit 8 (ucast hi) OR ucast lo"

fun byte_pairs :: "byte list \<Rightarrow> int16 list" where
  "byte_pairs (lo # hi # r) = int16_of_bytes lo hi # byte_pairs r"
| "byte_pairs r = []"

definition Int16Array_of_buffer :: "byte list \<Rightarrow> js_error + int16 list" where
  "Int16Array_of_buffer bytes =
     (if odd (length bytes) then Inl RangeError else Inr (byte_pairs bytes))"

section \<open>SampleCodec: \<open>encodeAudio\<close> and \<open>decodeAudioData\<close> (LiveVoiceModal)\<close>

text \<open>
  \<open>encodeAudio\<close>: each sample is clamped to \<open>[-1, 1]\<close>, scaled by \<open>0x8000\<close> when negative
  and by \<open>0x7FFF\<close> otherwise, stored into an \<open>Int16Array\<close>; the bytes of that array become
  a binary string (\<open>String.fromCharCode\<close>), which \<open>btoa\<close> encodes.
\<close>

definition pcm16 :: "real \<Rightarrow> int16" where
  "pcm16 x = (let s = max (- 1) (min 1 x) in to_int16 (if s < 0 then s * 32768 else s * 32767))"

definition encodeAudio :: "real list \<Rightarrow> string" where
  "encodeAudio inputData =
     (let int16 = map pcm16 inputData;
          bytes = concat (map int16_bytes int16);
          binary = map (\<lambda>b. char_of (unat b)) bytes
      in btoa binary)"

text \<open>
  \<open>decodeAudioData\<close>: \<open>atob\<close>, the code units become bytes (\<open>charCodeAt\<close>), the bytes are
  viewed as an \<open>Int16Array\<close>, and every element is divided by \<open>32768.0\<close>. Both calls that
  can throw are inside no \<open>try\<close>, so their exception is the function's.
\<close>

definition decodeAudioData :: "string \<Rightarrow> js_error + real list" where
  "decodeAudioData base64String =
     (case atob base64String of
        None \<Rightarrow> Inl InvalidCharacterError
      | Some binary \<Rightarrow>
          (case Int16Array_of_buffer (map (\<lambda>c. of_nat (of_char c)) binary) of
             Inl e \<Rightarrow> Inl e
           | Inr int16 \<Rightarrow> Inr (map (\<lambda>w. from_int16 w / 32768) int16)))"

text \<open>
  For stating the claims: a chunk is well-formed when its text is valid base64 for \<open>atob\<close>
  and the bytes it stands for are an even number.
\<close>

definition well_formed :: "string \<Rightarrow> bool" where
  "well_formed chunk = (case atob chunk of None \<Rightarrow> False | Some binary \<Rightarrow> even (length binary))"

subsection \<open>Web Audio: buffers, buffer sources, contexts\<close>

text \<open>
  \<open>ctx.createBuffer(1, length, 24000)\<close> throws \<open>NotSupportedError\<close> for a length of zero;
  otherwise the buffer holds \<open>length\<close> samples of one channel, which
  \<open>getChannelData(0).set(float32)\<close> then fills. Its \<open>duration\<close> is the length divided by the
  sample rate.
\<close>

definition createBuffer :: "real list \<Rightarrow> js_error + real list" where
  "createBuffer float32 = (if length float32 = 0 then Inl NotSupportedError else Inr float32)"

definition duration :: "real list \<Rightarrow> real" where
  "duration buffer = real (length buffer) / 24000"

text \<open>
  A buffer source node plays its buffer once from the time given to \<open>start\<close>. Its playback
  state is \<open>Scheduled\<close> from \<open>start\<close> until it either plays to its end (\<open>Ended\<close>) or is
  stopped (\<open>Halted\<close>). \<open>stop()\<close> throws \<open>InvalidStateError\<close> on a node never started and
  changes nothing on a node that has ended or was stopped before. \<open>onended\<close> is the
  handler assigned to the node: none, or one of the two functions the player assigns,
  named here by what they do.
\<close>

datatype playback = Unstarted | Scheduled | Halted | Ended

datatype ended_handler = NoHandler | RemoveFromPending | ClearSpeaking

record source_node =
  buffer :: "real list"
  startTime :: real
  playback :: playback
  onended :: ended_handler

definition node_stop :: "source_node \<Rightarrow> js_error + source_node" where
  "node_stop n =
     (case playback n of
        Unstarted \<Rightarrow> Inl InvalidStateError
      | Scheduled \<Rightarrow> Inr (n\<lparr>playback := Halted\<rparr>)
      | Halted \<Rightarrow> Inr n
      | Ended \<Rightarrow> Inr n)"

text \<open>
  \<open>AudioContext.close()\<close> returns a promise; on a context that is closed already the
  promise is rejected with \<open>InvalidStateError\<close> (nothing is thrown at the call).
\<close>

datatype ctx_state = Suspended | Running | Closed

definition ctx_close :: "ctx_state \<Rightarrow> js_error + ctx_state" where
  "ctx_close c = (if c = Closed then Inl InvalidStateError else Inr Closed)"

section \<open>PlaybackScheduler of the text-to-speech player (MessageBubble)\<close>

text \<open>
  The refs and state of the component. \<open>nodes\<close> are the buffer source nodes created on
  the output context, in creation order; a node is identified by its position, and
  \<open>sourcesRef\<close> (the pending set) holds such positions, as the array of the source holds
  references to the nodes. \<open>console\<close> collects what \<open>console.error\<close> is given in
  \<open>scheduleChunk\<close>. The device clock \<open>ctx.currentTime\<close> is an argument of every handler
  that reads it.
\<close>

record bubble =
  audioContextRef :: "ctx_state option"
  nodes :: "source_node list"
  sourcesRef :: "nat list"
  nextStartTimeRef :: real
  isSpeaking :: bool
  isLoadingAudio :: bool
  console :: "js_error list"

definition bubble_init :: bubble where
  "bubble_init =
     \<lparr>audioContextRef = None, nodes = [], sourcesRef = [], nextStartTimeRef = 0,
      isSpeaking = False, isLoadingAudio = False, console = []\<rparr>"

text \<open>\<open>try { source.stop(); } catch (e) {}\<close> on the node at position \<open>i\<close>.\<close>

definition stop_source :: "source_node list \<Rightarrow> nat \<Rightarrow> source_node list" where
  "stop_source ns i =
     (if i < length ns
      then (case node_stop (ns ! i) of Inl e \<Rightarrow> ns | Inr n \<Rightarrow> ns[i := n])
      else ns)"

definition stopAudio :: "bubble \<Rightarrow> bubble" where
  "stopAudio st =
     st\<lparr>nodes := foldl stop_source (nodes st) (sourcesRef st),
        sourcesRef := [],
        isSpeaking := False,
        nextStartTimeRef := 0\<rparr>"

text \<open>
  \<open>scheduleChunk\<close>: without a context it returns \<open>null\<close>. Decoding (the statements of
  \<open>decodeAudioData\<close>, written out again in this function) and \<open>createBuffer\<close> run inside
  \<open>try\<close>; the \<open>catch\<close> logs and returns \<open>null\<close>. Otherwise the node starts at
  \<open>max(ctx.currentTime, nextStartTime)\<close>, the cursor moves to the end of the fragment,
  the node joins the pending set and gets the handler that takes it out again.
\<close>

definition scheduleChunk :: "bubble \<Rightarrow> real \<Rightarrow> string \<Rightarrow> nat option \<times> bubble" where
  "scheduleChunk st currentTime base64 =
     (case audioContextRef st of
        None \<Rightarrow> (None, st)
      | Some ctx \<Rightarrow>
          (case (case decodeAudioData base64 of Inl e \<Rightarrow> Inl e | Inr float32 \<Rightarrow> createBuffer float32) of
             Inl err \<Rightarrow> (None, st\<lparr>console := console st @ [err]\<rparr>)
           | Inr buf \<Rightarrow>
               (let start = max currentTime (nextStartTimeRef st);
                    source = length (nodes st)
                in (Some source,
                    st\<lparr>nodes := nodes st @
                            [\<lparr>buffer = buf, startTime = start, playback = Scheduled,
                              onended = RemoveFromPending\<rparr>],
                       nextStartTimeRef := start + duration buf,
                       sourcesRef := sourcesRef st @ [source]\<rparr>))))"

text \<open>
  \<open>handleSpeak\<close> up to the start of the stream: a click while speaking stops; a click
  while loading does nothing; an empty cleaned text clears both flags; otherwise the
  context is created if absent, resumed if suspended, and the cursor is reset to the
  device's current time. \<open>hasText\<close> says whether the cleaned text is non-empty. A
  browser that refuses to create or resume the context is not modelled.
\<close>

definition handleSpeak :: "bubble \<Rightarrow> real \<Rightarrow> bool \<Rightarrow> bubble" where
  "handleSpeak st currentTime hasText =
     (if isSpeaking st then stopAudio st
      else if isLoadingAudio st then st
      else if \<not> hasText then st\<lparr>isLoadingAudio := False, isSpeaking := False\<rparr>
      else st\<lparr>isLoadingAudio := True,
              isSpeaking := True,
              audioContextRef :=
                Some (case audioContextRef st of
                        None \<Rightarrow> Running
                      | Some c \<Rightarrow> (if c = Suspended then Running else c)),
              nextStartTimeRef := currentTime\<rparr>)"

text \<open>
  The rest of \<open>handleSpeak\<close>. The callback given to \<open>streamSpeech\<close> clears the loading
  flag on the first chunk and schedules every chunk; its result is the new
  \<open>activeSource\<close>. \<open>streamChunks\<close> is the stream: the callback once per chunk, each with
  the clock reading at its arrival, threading the two locals \<open>isFirstChunk\<close> and
  \<open>activeSource\<close>. When the stream has finished, the last scheduled node, if there is
  one, gets the handler that clears the speaking flag; otherwise both flags are cleared.
\<close>

definition onAudioChunk :: "bubble \<Rightarrow> bool \<Rightarrow> real \<Rightarrow> string \<Rightarrow> nat option \<times> bubble" where
  "onAudioChunk st isFirstChunk currentTime base64 =
     scheduleChunk (if isFirstChunk then st\<lparr>isLoadingAudio := False\<rparr> else st) currentTime base64"

fun streamChunks :: "bubble \<Rightarrow> bool \<Rightarrow> nat option \<Rightarrow> (real \<times> string) list \<Rightarrow> nat option \<times> bubble" where
  "streamChunks st isFirstChunk activeSource [] = (activeSource, st)"
| "streamChunks st isFirstChunk activeSource ((t, base64) # rest) =
     streamChunks (snd (onAudioChunk st isFirstChunk t base64)) False
       (fst (onAudioChunk st isFirstChunk t base64)) rest"

definition streamFinished :: "bubble \<Rightarrow> nat option \<Rightarrow> bubble" where
  "streamFinished st activeSource =
     (case activeSource of
        None \<Rightarrow> st\<lparr>isSpeaking := False, isLoadingAudio := False\<rparr>
      | Some i \<Rightarrow>
          (if i < length (nodes st)
           then st\<lparr>nodes := (nodes st)[i := (nodes st ! i)\<lparr>onended := ClearSpeaking\<rparr>]\<rparr>
           else st))"

text \<open>
  The device reports that node \<open>i\<close> has ended (it played to its end, or it was stopped) and
  the node's handler runs: the one set by \<open>scheduleChunk\<close> removes the node from the
  pending set (\<open>indexOf\<close>, \<open>splice\<close>), the one set at the end of the stream clears the
  speaking flag when the clock is within half a second of the cursor or past it.
\<close>

definition source_ended :: "bubble \<Rightarrow> real \<Rightarrow> nat \<Rightarrow> bubble" where
  "source_ended st currentTime i =
     (if i < length (nodes st)
      then
        (let n = nodes st ! i;
             st1 = st\<lparr>nodes := (nodes st)
                       [i := n\<lparr>playback := (if playback n = Scheduled then Ended else playback n)\<rparr>]\<rparr>
         in case onended n of
              NoHandler \<Rightarrow> st1
            | RemoveFromPending \<Rightarrow> st1\<lparr>sourcesRef := remove1 i (sourcesRef st1)\<rparr>
            | ClearSpeaking \<Rightarrow>
                (if audioContextRef st1 \<noteq> None \<and> nextStartTimeRef st1 - 0.5 \<le> currentTime
                 then st1\<lparr>isSpeaking := False\<rparr> else st1))
      else st)"

text \<open>The effect cleanup of the component: \<open>stopAudio\<close>, then \<open>close\<close> unless closed.\<close>

definition bubble_cleanup :: "bubble \<Rightarrow> bubble" where
  "bubble_cleanup st =
     (let st1 = stopAudio st in
      case audioContextRef st1 of
        None \<Rightarrow> st1
      | Some c \<Rightarrow>
          (if c \<noteq> Closed
           then (case ctx_close c of Inl e \<Rightarrow> st1 | Inr c' \<Rightarrow> st1\<lparr>audioContextRef := Some c'\<rparr>)
           else st1))"

text \<open>
  The handlers of the component as events of one player, each with the clock reading at
  the time it runs, and the state a stream of chunks leaves.
\<close>

datatype bubble_event =
    HandleSpeak bool
  | AudioChunk bool string
  | StreamFinished "nat option"
  | SourceEnded nat
  | StopAudio
  | Cleanup

fun bubble_step :: "bubble \<Rightarrow> real \<Rightarrow> bubble_event \<Rightarrow> bubble" where
  "bubble_step st t (HandleSpeak hasText) = handleSpeak st t hasText"
| "bubble_step st t (AudioChunk isFirstChunk base64) = snd (onAudioChunk st isFirstChunk t base64)"
| "bubble_step st t (StreamFinished activeSource) = streamFinished st activeSource"
| "bubble_step st t (SourceEnded i) = source_ended st t i"
| "bubble_step st t StopAudio = stopAudio st"
| "bubble_step st t Cleanup = bubble_cleanup st"

definition feed :: "bubble \<Rightarrow> (real \<times> string) list \<Rightarrow> bubble" where
  "feed st arrivals = snd (streamChunks st True None arrivals)"

section \<open>The duplex voice session (LiveVoiceModal)\<close>

text \<open>
  State and refs of the component. \<open>volumeLevel\<close> is a JavaScript number that can be
  \<open>NaN\<close> (\<open>None\<close>). A media stream is its list of tracks; the processor and the stream
  source are nodes that are wired to the graph or not. \<open>inputCtx\<close> is the capture
  context \<open>onopen\<close> creates and keeps in a local constant. \<open>lv_nodes\<close> are the buffer
  sources started on the output context, \<open>sent\<close> the chunks given to \<open>sendRealtimeInput\<close>,
  \<open>pendingVolumeResets\<close> the timers set by \<open>setTimeout(() => setVolumeLevel(0), 200)\<close>,
  \<open>onCloseCalls\<close> the calls of the \<open>onClose\<close> prop and \<open>rejected\<close> the rejected promises
  nobody awaits.
\<close>

datatype status = StConnecting | StConnected | StError

datatype track = TrackLive | TrackEnded

datatype wiring = Wired | Unwired

record live =
  status :: status
  isMuted :: bool
  volumeLevel :: "real option"
  lv_audioContextRef :: "ctx_state option"
  inputCtx :: "ctx_state option"
  lv_nodes :: "source_node list"
  mediaStreamRef :: "track list option"
  processorRef :: "wiring option"
  sourceRef :: "wiring option"
  lv_nextStartTimeRef :: real
  mountedRef :: bool
  sent :: "string list"
  pendingVolumeResets :: nat
  onCloseCalls :: nat
  rejected :: "js_error list"

definition live_init :: live where
  "live_init =
     \<lparr>status = StConnecting, isMuted = False, volumeLevel = Some 0,
      lv_audioContextRef = None, inputCtx = None, lv_nodes = [], mediaStreamRef = None,
      processorRef = None, sourceRef = None, lv_nextStartTimeRef = 0, mountedRef = True,
      sent = [], pendingVolumeResets = 0, onCloseCalls = 0, rejected = []\<rparr>"

text \<open>
  \<open>connect\<close>, with the outcome of each step that can fail as an argument: whether an API
  key is configured, the tracks \<open>getUserMedia\<close> grants (\<open>None\<close> when it rejects) and
  whether \<open>ai.live.connect\<close> resolves. Every failure is caught and sets the status to
  \<open>error\<close>.
\<close>

definition connect :: "live \<Rightarrow> bool \<Rightarrow> track list option \<Rightarrow> bool \<Rightarrow> live" where
  "connect st hasApiKey granted resolved =
     (let st1 = st\<lparr>status := StConnecting\<rparr> in
      if \<not> hasApiKey then st1\<lparr>status := StError\<rparr>
      else
        (let st2 = st1\<lparr>lv_audioContextRef := Some Running\<rparr> in
         case granted of
           None \<Rightarrow> st2\<lparr>status := StError\<rparr>
         | Some stream \<Rightarrow>
             (let st3 = st2\<lparr>mediaStreamRef := Some stream\<rparr> in
              if resolved then st3 else st3\<lparr>status := StError\<rparr>)))"

definition onopen :: "live \<Rightarrow> live" where
  "onopen st =
     (if \<not> mountedRef st then st
      else st\<lparr>status := StConnected, inputCtx := Some Running,
              sourceRef := Some Wired, processorRef := Some Wired\<rparr>)"

text \<open>
  The body of the effect: \<open>mountedRef.current = true; if (isOpen) connect();\<close>. The effect
  depends on \<open>isOpen\<close> and on \<open>connect\<close>, and \<open>connect\<close> on \<open>isMuted\<close>: when the mute button
  flips the flag (\<open>setIsMuted(!isMuted)\<close>), the cleanup below runs and the effect runs
  again, so the handlers of the new session hold the new flag. \<open>isMuted\<close> of the state is
  the flag the installed handlers hold.
\<close>

definition live_effect :: "live \<Rightarrow> bool \<Rightarrow> bool \<Rightarrow> track list option \<Rightarrow> bool \<Rightarrow> live" where
  "live_effect st isOpen hasApiKey granted resolved =
     (let st1 = st\<lparr>mountedRef := True\<rparr>
      in if isOpen then connect st1 hasApiKey granted resolved else st1)"

definition toggleMute :: "live \<Rightarrow> live" where
  "toggleMute st = st\<lparr>isMuted := \<not> isMuted st\<rparr>"

text \<open>
  \<open>processor.onaudioprocess\<close>: the first statement returns when muted. Otherwise the
  RMS of the frame times 5, capped at 1, is published and the encoded frame is sent.
  The mean of an empty frame is \<open>0 / 0\<close>, which is \<open>NaN\<close> in JavaScript and stays \<open>NaN\<close>
  through \<open>Math.sqrt\<close> and \<open>Math.min\<close>.
\<close>

definition loudness :: "real list \<Rightarrow> real option" where
  "loudness inputData =
     (if length inputData = 0 then None
      else (let sum = (\<Sum>x\<leftarrow>inputData. x * x);
                rms = sqrt (sum / real (length inputData))
            in Some (min (rms * 5) 1)))"

definition onaudioprocess :: "live \<Rightarrow> real list \<Rightarrow> live" where
  "onaudioprocess st inputData =
     (if isMuted st then st
      else st\<lparr>volumeLevel := loudness inputData,
              sent := sent st @ [encodeAudio inputData]\<rparr>)"

text \<open>
  \<open>onmessage\<close>: nothing when unmounted. With a non-empty \<open>audioData\<close> and a context, the
  chunk is decoded and scheduled; \<open>decodeAudioData\<close> and \<open>createBuffer\<close> are in no \<open>try\<close>
  here, so their exception leaves the handler (\<open>Inl\<close>) before any ref or state is
  written. \<open>rnd\<close> is the value of \<open>Math.random()\<close>. The volume-reset timer is set on
  every path that reaches the end of the handler.
\<close>

definition onmessage :: "live \<Rightarrow> real \<Rightarrow> real \<Rightarrow> string option \<Rightarrow> js_error + live" where
  "onmessage st currentTime rnd audioData =
     (if \<not> mountedRef st then Inr st
      else
        (case audioData of
           None \<Rightarrow> Inr (st\<lparr>pendingVolumeResets := Suc (pendingVolumeResets st)\<rparr>)
         | Some base64 \<Rightarrow>
             (if base64 = [] \<or> lv_audioContextRef st = None
              then Inr (st\<lparr>pendingVolumeResets := Suc (pendingVolumeResets st)\<rparr>)
              else
                (case decodeAudioData base64 of
                   Inl e \<Rightarrow> Inl e
                 | Inr float32Data \<Rightarrow>
                     (case createBuffer float32Data of
                        Inl e \<Rightarrow> Inl e
                      | Inr buf \<Rightarrow>
                          (let start = max currentTime (lv_nextStartTimeRef st)
                           in Inr (st\<lparr>lv_nodes :=
                                         lv_nodes st @
                                           [\<lparr>buffer = buf, startTime = start, playback = Scheduled,
                                             onended = NoHandler\<rparr>],
                                      lv_nextStartTimeRef := start + duration buf,
                                      volumeLevel := Some (rnd * 0.5 + 0.3),
                                      pendingVolumeResets := Suc (pendingVolumeResets st)\<rparr>)))))))"

definition onclose :: "live \<Rightarrow> live" where
  "onclose st = (if mountedRef st then st\<lparr>onCloseCalls := Suc (onCloseCalls st)\<rparr> else st)"

definition onerror :: "live \<Rightarrow> live" where
  "onerror st = (if mountedRef st then st\<lparr>status := StError\<rparr> else st)"

text \<open>
  The effect cleanup, one definition for each of its statements after
  \<open>mountedRef.current = false\<close>: the tracks are stopped, the processor and the source
  disconnected and the output context closed, each when its ref is set. No ref is cleared,
  \<open>close()\<close> is called whatever the state of the context, and the capture context is not
  touched.
\<close>

definition stop_tracks :: "live \<Rightarrow> live" where
  "stop_tracks st =
     (case mediaStreamRef st of
        None \<Rightarrow> st
      | Some tracks \<Rightarrow> st\<lparr>mediaStreamRef := Some (map (\<lambda>track. TrackEnded) tracks)\<rparr>)"

definition disconnect_processor :: "live \<Rightarrow> live" where
  "disconnect_processor st =
     (case processorRef st of None \<Rightarrow> st | Some p \<Rightarrow> st\<lparr>processorRef := Some Unwired\<rparr>)"

definition disconnect_source :: "live \<Rightarrow> live" where
  "disconnect_source st =
     (case sourceRef st of None \<Rightarrow> st | Some s \<Rightarrow> st\<lparr>sourceRef := Some Unwired\<rparr>)"

definition close_context :: "live \<Rightarrow> live" where
  "close_context st =
     (case lv_audioContextRef st of
        None \<Rightarrow> st
      | Some c \<Rightarrow>
          (case ctx_close c of
             Inl e \<Rightarrow> st\<lparr>rejected := rejected st @ [e]\<rparr>
           | Inr c' \<Rightarrow> st\<lparr>lv_audioContextRef := Some c'\<rparr>))"

definition live_cleanup :: "live \<Rightarrow> live" where
  "live_cleanup st =
     close_context (disconnect_source (disconnect_processor (stop_tracks (st\<lparr>mountedRef := False\<rparr>))))"

text \<open>
  A sequence of inbound messages, each with the clock reading and the random draw of its
  handler call. The transport calls the handler once per message; a call that throws has
  written nothing, so the next call finds the state the throwing call found.
\<close>

fun deliver :: "live \<Rightarrow> (real \<times> real \<times> string option) list \<Rightarrow> live" where
  "deliver st [] = st"
| "deliver st ((t, rnd, audioData) # rest) =
     deliver (case onmessage st t rnd audioData of Inl e \<Rightarrow> st | Inr st' \<Rightarrow> st') rest"

section \<open>Predicates and states for the claims\<close>

text \<open>
  Fragments in scheduling order do not overlap when each starts no earlier than the one
  before it ends.
\<close>

fun no_overlap :: "source_node list \<Rightarrow> bool" where
  "no_overlap (m # n # rest) =
     (startTime m + duration (buffer m) \<le> startTime n \<and> no_overlap (n # rest))"
| "no_overlap rest = True"

text \<open>The fragments a stream of chunks, or of messages, adds to the output device.\<close>

definition fed :: "bubble \<Rightarrow> (real \<times> string) list \<Rightarrow> source_node list" where
  "fed st arrivals = drop (length (nodes st)) (nodes (feed st arrivals))"

definition delivered :: "live \<Rightarrow> (real \<times> real \<times> string option) list \<Rightarrow> source_node list" where
  "delivered st messages = drop (length (lv_nodes st)) (lv_nodes (deliver st messages))"

text \<open>
  For the proof of the scheduling invariant: the two outcomes of one arrival on the pair of
  device schedule and cursor (nothing changes, or one fragment is appended at the later
  of arrival time and cursor), and the invariant itself (the fragments added after \<open>pre\<close>
  do not overlap and the last of them ends by the cursor).
\<close>

definition sched_step :: "source_node list \<times> real \<Rightarrow> source_node list \<times> real \<Rightarrow> bool" where
  "sched_step a b \<longleftrightarrow>
     b = a \<or>
     (\<exists>buf t h. b = (fst a @ [\<lparr>buffer = buf, startTime = max t (snd a), playback = Scheduled,
                                onended = h\<rparr>],
                     max t (snd a) + duration buf))"

definition chained :: "source_node list \<Rightarrow> source_node list \<times> real \<Rightarrow> bool" where
  "chained pre a \<longleftrightarrow>
     (\<exists>ns. fst a = pre @ ns \<and> no_overlap ns \<and>
        (ns \<noteq> [] \<longrightarrow> startTime (last ns) + duration (buffer (last ns)) \<le> snd a))"

text \<open>
  Every resource the session owns is released: no track of the input stream is live,
  neither capture node is wired, and both audio contexts, the output context of
  \<open>connect\<close> and the capture context of \<open>onopen\<close>, are closed. A resource never acquired
  counts as released.
\<close>

definition released :: "live \<Rightarrow> bool" where
  "released st =
     ((case mediaStreamRef st of None \<Rightarrow> True | Some tracks \<Rightarrow> list_all (\<lambda>track. track = TrackEnded) tracks) \<and>
      processorRef st \<noteq> Some Wired \<and>
      sourceRef st \<noteq> Some Wired \<and>
      (case lv_audioContextRef st of None \<Rightarrow> True | Some c \<Rightarrow> c = Closed) \<and>
      (case inputCtx st of None \<Rightarrow> True | Some c \<Rightarrow> c = Closed))"

text \<open>
  States the claims are tried on. A player after \<open>handleSpeak\<close> at device time 0. That
  player after a stream of two chunks was played to its end (the first node ended and
  left the pending set, the last ended with the handler that replaced its own, so it is
  still listed) and a second stream was started at device time 5 and has delivered one
  chunk. The player after a stream was stopped and a second one started at device time 5
  that has delivered nothing yet. A voice session that was opened, connected and got
  \<open>onopen\<close>; that session after the mute button was pressed, which tears it down and
  connects it again; and that session after the server closed it: \<open>onclose\<close> calls the
  \<open>onClose\<close> prop, the parent sets \<open>isOpen\<close> to false, and React runs the cleanup of the
  effect and then its body, which connects nothing. The component stays mounted, so the
  cleanup runs once more when the modal is opened again or unmounted.
\<close>

definition started_player :: bubble where
  "started_player = handleSpeak bubble_init 0 True"

definition replaying_player :: bubble where
  "replaying_player =
     feed (handleSpeak
             (source_ended
                (source_ended
                   (streamFinished (feed started_player [(0, ''AAAAAA''), (0, ''AAAAAA'')]) (Some 1))
                   1 0)
                1 1)
             5 True)
       [(5, ''AAAAAA'')]"

definition restarted_player :: bubble where
  "restarted_player = handleSpeak (stopAudio (feed started_player [(0, ''AAAAAA'')])) 5 True"

definition connected_session :: live where
  "connected_session = onopen (live_effect live_init True True (Some [TrackLive]) True)"

definition muted_session :: live where
  "muted_session =
     onopen (live_effect (live_cleanup (toggleMute connected_session)) True True (Some [TrackLive]) True)"

definition closed_session :: live where
  "closed_session = live_effect (live_cleanup (onclose connected_session)) False True None True"

section \<open>Facts about the platform primitives\<close>

lemma div16: "(x::nat) < 256 \<Longrightarrow> x div 16 < 16" by simp
lemma div64: "(x::nat) < 256 \<Longrightarrow> x div 64 < 4" by simp
lemma div4: "(x::nat) < 256 \<Longrightarrow> x div 4 < 64" by simp

lemma grp16: "(q::nat) < 16 \<Longrightarrow> (p * 16 + q) div 16 = p \<and> (p * 16 + q) mod 16 = q" by simp
lemma grp4: "(q::nat) < 4 \<Longrightarrow> (p * 4 + q) div 4 = p \<and> (p * 4 + q) mod 4 = q" by simp

lemma byte1: "(y::nat) < 256 \<Longrightarrow> x div 4 * 4 + (x mod 4 * 16 + y div 16) div 16 = x"
  using grp16[of "y div 16" "x mod 4"] div16[of y] by simp

lemma byte1': "(x::nat) div 4 * 4 + (x mod 4 * 16) div 16 = x"
  by simp

lemma byte2: "(y::nat) < 256 \<Longrightarrow> (z::nat) < 256 \<Longrightarrow>
   (x mod 4 * 16 + y div 16) mod 16 * 16 + (y mod 16 * 4 + z div 64) div 4 = y"
  using grp16[of "y div 16" "x mod 4"] div16[of y] grp4[of "z div 64" "y mod 16"] div64[of z] by simp

lemma byte2': "(y::nat) < 256 \<Longrightarrow>
   (x mod 4 * 16 + y div 16) mod 16 * 16 + (y mod 16 * 4) div 4 = y"
  using grp16[of "y div 16" "x mod 4"] div16[of y] by simp

lemma byte3: "(z::nat) < 256 \<Longrightarrow> (y mod 16 * 4 + z div 64) mod 4 * 64 + z mod 64 = z"
  using grp4[of "z div 64" "y mod 16"] div64[of z] by simp

lemma six2: "(y::nat) < 256 \<Longrightarrow> x mod 4 * 16 + y div 16 < 64"
  using div16[of y] mod_less_divisor[of 4 x] by linarith
lemma six2': "(x::nat) mod 4 * 16 < 64"
  using mod_less_divisor[of 4 x] by linarith
lemma six3: "(z::nat) < 256 \<Longrightarrow> y mod 16 * 4 + z div 64 < 64"
  using div64[of z] mod_less_divisor[of 16 y] by linarith
lemma six3': "(y::nat) mod 16 * 4 < 64"
  using mod_less_divisor[of 16 y] by linarith

lemma sextets_lt_64: "v \<in> set (sextets s) \<Longrightarrow> v < 64"
proof (induction s arbitrary: v rule: sextets.induct)
  case (1 a b c r)
  then show ?case
    using div4[of "of_char a"] six2[of "of_char b" "of_char a"] six3[of "of_char c" "of_char b"]
    by (auto simp del: of_nat_of_char)
next
  case (2 a b)
  then show ?case
    using div4[of "of_char a"] six2[of "of_char b" "of_char a"] six3'[of "of_char b"]
    by auto
next
  case (3 a)
  then show ?case using div4[of "of_char a"] six2'[of "of_char a"] by auto
next
  case 4
  then show ?case by simp
qed

lemma octets_sextets: "octets (sextets s) = s"
proof (induction s rule: sextets.induct)
  case (1 a b c r)
  have lt: "(of_char a :: nat) < 256" "(of_char b :: nat) < 256" "(of_char c :: nat) < 256"
    by simp_all
  show ?case
    by (simp only: sextets.simps octets.simps append_Cons append_Nil 1
        byte1[OF lt(2)] byte2[OF lt(2) lt(3)] byte3[OF lt(3)] char_of_char)
next
  case (2 a b)
  have lt: "(of_char a :: nat) < 256" "(of_char b :: nat) < 256"
    by simp_all
  show ?case
    by (simp only: sextets.simps octets.simps append_Cons append_Nil
        byte1[OF lt(2)] byte2'[OF lt(2)] char_of_char)
next
  case (3 a)
  show ?case
    by (simp only: sextets.simps octets.simps byte1' char_of_char)
next
  case 4
  show ?case by simp
qed

lemma length_sextets:
  "length (sextets s) = 4 * (length s div 3) + (if length s mod 3 = 0 then 0 else length s mod 3 + 1)"
  by (induction s rule: sextets.induct) simp_all


lemma b64_value_char: "n < 64 \<Longrightarrow> b64_value (b64_char n) = Some n"
  by (auto simp add: b64_value_def b64_char_def Let_def)

lemma b64_char_not_eq: "n < 64 \<Longrightarrow> b64_char n \<noteq> CHR ''=''"
  using b64_value_char[of n] by (auto simp add: b64_value_def Let_def split: if_splits)

lemma b64_char_not_ws: "n < 64 \<Longrightarrow> \<not> ascii_whitespace (b64_char n)"
  using b64_value_char[of n] by (auto simp add: b64_value_def ascii_whitespace_def Let_def split: if_splits)

lemma eq_not_ws: "\<not> ascii_whitespace (CHR ''='')"
  by (simp add: ascii_whitespace_def)

lemma b64_values_map: "\<forall>v\<in>set vs. v < 64 \<Longrightarrow> b64_values (map b64_char vs) = Some vs"
  by (induction vs) (simp_all add: b64_value_char)

lemma btoa_no_ws: "filter (\<lambda>c. \<not> ascii_whitespace c) (btoa s) = btoa s"
proof -
  have "\<forall>c\<in>set (btoa s). \<not> ascii_whitespace c"
    by (auto simp add: btoa_def b64_char_not_ws sextets_lt_64 eq_not_ws)
  then show ?thesis by (simp add: filter_id_conv)
qed

lemma length_btoa: "length (btoa s) mod 4 = 0"
proof -
  consider "length s mod 3 = 0" | "length s mod 3 = 1" | "length s mod 3 = 2"
    by linarith
  then show ?thesis
    by cases (simp_all add: btoa_def length_sextets)
qed

lemma strip_padding_rev_body:
  assumes "\<forall>c\<in>set body. c \<noteq> CHR ''=''" and "k \<le> 2" and "k = 1 \<longrightarrow> body \<noteq> []"
  shows "strip_padding_rev (rev (body @ replicate k (CHR ''=''))) = rev body"
proof -
  consider "k = 0" | "k = 1" | "k = 2" using assms(2) by linarith
  then show ?thesis
  proof cases
    case 1
    show ?thesis
    proof (cases "rev body")
      case Nil
      then show ?thesis using 1 by simp
    next
      case (Cons c1 r1)
      then have "c1 \<in> set body" by (metis list.set_intros(1) set_rev)
      then have "c1 \<noteq> CHR ''=''" using assms(1) by blast
      then show ?thesis using 1 Cons by (cases r1) simp_all
    qed
  next
    case 2
    then obtain c2 r where r: "rev body = c2 # r" using assms(3) by (cases "rev body") auto
    then have "c2 \<in> set body" by (metis list.set_intros(1) set_rev)
    then have "c2 \<noteq> CHR ''=''" using assms(1) by blast
    then show ?thesis using 2 r by simp
  next
    case 3
    then show ?thesis by (simp add: numeral_2_eq_2)
  qed
qed

lemma strip_padding_btoa: "strip_padding (btoa s) = map b64_char (sextets s)"
proof -
  let ?body = "map b64_char (sextets s)"
  let ?k = "(3 - length s mod 3) mod 3"
  have 1: "\<forall>c\<in>set ?body. c \<noteq> CHR ''=''"
    by (auto simp add: b64_char_not_eq sextets_lt_64)
  have 2: "?k \<le> 2" by linarith
  have 3: "?k = 1 \<longrightarrow> ?body \<noteq> []"
    by (cases s rule: sextets.cases) simp_all
  have "strip_padding_rev (rev (btoa s)) = rev ?body"
    unfolding btoa_def by (rule strip_padding_rev_body[OF 1 2 3])
  then show ?thesis
    by (simp add: strip_padding_def length_btoa)
qed

lemma length_sextets_mod4: "length (sextets s) mod 4 \<noteq> 1"
proof -
  consider "length s mod 3 = 0" | "length s mod 3 = 1" | "length s mod 3 = 2"
    by linarith
  then show ?thesis
    unfolding length_sextets by cases presburger+
qed

lemma atob_btoa: "atob (btoa s) = Some s"
  using length_sextets_mod4[of s]
  by (simp add: atob_def btoa_no_ws strip_padding_btoa b64_values_map sextets_lt_64 octets_sextets)

section \<open>Facts about the codec\<close>

lemma int16_roundtrip: "int16_of_bytes (ucast w) (ucast (drop_bit 8 w)) = w"
  unfolding int16_of_bytes_def
  by (rule bit_word_eqI) (auto simp add: bit_simps)

lemma byte_pairs_int16_bytes: "byte_pairs (concat (map int16_bytes ws)) = ws"
  by (induction ws) (simp_all add: int16_bytes_def int16_roundtrip)

lemma even_length_int16_bytes: "even (length (concat (map int16_bytes ws)))"
  by (induction ws) (simp_all add: int16_bytes_def)

lemma byte_of_char_of_byte: "word_of_nat (unat b mod 256) = (b :: byte)"
proof -
  have "unat b < 256" using unsigned_less[of b, where 'a=nat] by simp
  then show ?thesis by simp
qed

lemma bytes_of_binary: "map (\<lambda>c. of_nat (of_char c)) (map (\<lambda>b. char_of (unat b)) bs) = (bs :: byte list)"
  by (induction bs) (simp_all add: byte_of_char_of_byte)

lemma decode_encode:
  "decodeAudioData (encodeAudio x) = Inr (map (\<lambda>s. from_int16 (pcm16 s) / 32768) x)"
proof -
  let ?ws = "map pcm16 x"
  let ?bytes = "concat (map int16_bytes ?ws)"
  have enc: "encodeAudio x = btoa (map (\<lambda>b. char_of (unat b)) ?bytes)"
    by (simp only: encodeAudio_def Let_def)
  have "decodeAudioData (encodeAudio x) =
        (case Int16Array_of_buffer ?bytes of Inl e \<Rightarrow> Inl e
         | Inr int16 \<Rightarrow> Inr (map (\<lambda>w. from_int16 w / 32768) int16))"
    by (simp only: enc decodeAudioData_def atob_btoa option.case bytes_of_binary)
  also have "Int16Array_of_buffer ?bytes = Inr ?ws"
    by (simp only: Int16Array_of_buffer_def even_length_int16_bytes byte_pairs_int16_bytes
        not_True_eq_False if_False)
  finally show ?thesis by (simp add: o_def)
qed

lemma from_int16_range: "- 32768 \<le> from_int16 w \<and> from_int16 w \<le> 32767"
proof -
  have "- 32768 \<le> sint w" "sint w \<le> 32767"
    using sint_ge[of w] sint_lt[of w] by simp_all
  then have "real_of_int (- 32768) \<le> real_of_int (sint w)" "real_of_int (sint w) \<le> real_of_int 32767"
    by (simp_all only: of_int_le_iff)
  then show ?thesis by (simp add: from_int16_def del: of_int_sint)
qed

lemma decodeAudioData_range:
  assumes "decodeAudioData chunk = Inr samples" and "y \<in> set samples"
  shows "- 1 \<le> y \<and> y \<le> 32767 / 32768"
proof -
  from assms obtain w where "y = from_int16 w / 32768"
    by (auto simp add: decodeAudioData_def split: option.splits sum.splits)
  then show ?thesis using from_int16_range[of w] by simp
qed

lemma from_to_int16:
  assumes "- 32768 \<le> trunc v" and "trunc v \<le> 32767"
  shows "from_int16 (to_int16 v) = real_of_int (trunc v)"
proof -
  have "sint (word_of_int (trunc v) :: int16) = trunc v"
    using assms by (simp add: sint_sbintrunc' signed_take_bit_int_eq_self)
  then show ?thesis by (simp only: from_int16_def to_int16_def)
qed

lemma pcm16_nonneg:
  assumes "0 \<le> x" and "x \<le> 1"
  shows "from_int16 (pcm16 x) = real_of_int \<lfloor>x * 32767\<rfloor>"
proof -
  have 1: "0 \<le> \<lfloor>x * 32767\<rfloor>" using assms by simp
  have "x * 32767 \<le> 32767" using assms by simp
  then have 2: "\<lfloor>x * 32767\<rfloor> \<le> 32767" by (simp add: floor_le_iff)
  have t: "trunc (x * 32767) = \<lfloor>x * 32767\<rfloor>" using assms by (simp add: trunc_def)
  have clamp: "max (- 1) (min 1 x) = x" using assms by simp
  have "pcm16 x = to_int16 (x * 32767)"
    using assms by (simp add: pcm16_def clamp)
  then show ?thesis using from_to_int16[of "x * 32767"] 1 2 t by simp
qed

lemma pcm16_neg:
  assumes "- 1 \<le> x" and "x < 0"
  shows "from_int16 (pcm16 x) = real_of_int \<lceil>x * 32768\<rceil>"
proof -
  have "- 32768 \<le> x * 32768" using assms by simp
  then have 1: "- 32768 \<le> \<lceil>x * 32768\<rceil>" by (simp add: le_ceiling_iff)
  have "x * 32768 \<le> 0" using assms by simp
  then have 2: "\<lceil>x * 32768\<rceil> \<le> 0" by (simp add: ceiling_le_iff)
  have t: "trunc (x * 32768) = \<lceil>x * 32768\<rceil>" using assms by (simp add: trunc_def)
  have clamp: "max (- 1) (min 1 x) = x" using assms by simp
  have "pcm16 x = to_int16 (x * 32768)"
    using assms by (simp add: pcm16_def clamp)
  then show ?thesis using from_to_int16[of "x * 32768"] 1 2 t by simp
qed

lemma error_nonneg:
  assumes "0 \<le> x" and "x \<le> 1"
  shows "0 \<le> x - from_int16 (pcm16 x) / 32768 \<and> x - from_int16 (pcm16 x) / 32768 < 2 / 32768"
proof -
  let ?t = "real_of_int \<lfloor>x * 32767\<rfloor>"
  have lo: "?t \<le> x * 32767" by simp
  have hi: "x * 32767 < ?t + 1" by linarith
  have "x * 32768 - ?t < 2" using hi assms by linarith
  moreover have "0 \<le> x * 32768 - ?t" using lo assms by linarith
  ultimately show ?thesis
    by (simp add: pcm16_nonneg[OF assms] field_simps)
qed

lemma error_neg:
  assumes "- 1 \<le> x" and "x < 0"
  shows "0 \<le> from_int16 (pcm16 x) / 32768 - x \<and> from_int16 (pcm16 x) / 32768 - x < 1 / 32768"
proof -
  let ?t = "real_of_int \<lceil>x * 32768\<rceil>"
  have lo: "x * 32768 \<le> ?t" by simp
  have hi: "?t < x * 32768 + 1" by linarith
  show ?thesis using lo hi
    by (simp add: pcm16_neg[OF assms] field_simps)
qed

text \<open>
  The bound of two steps for a non-negative sample is not generous: the largest 32-bit
  float below 1 is reconstructed with an error above 1.99 steps.
\<close>

lemma error_bound_tight:
  "from_int16 (pcm16 (16777215 / 16777216)) = 32766 \<and>
   (199 / 100) / 32768 < 16777215 / 16777216 - from_int16 (pcm16 (16777215 / 16777216)) / 32768"
proof -
  have "from_int16 (pcm16 (16777215 / 16777216)) = real_of_int \<lfloor>16777215 / 16777216 * 32767 :: real\<rfloor>"
    by (rule pcm16_nonneg) simp_all
  then have v: "from_int16 (pcm16 (16777215 / 16777216)) = 32766" by simp
  show ?thesis unfolding v by simp
qed

lemma well_formed_decodes:
  "well_formed chunk \<longleftrightarrow> (\<exists>samples. decodeAudioData chunk = Inr samples)"
  by (auto simp add: well_formed_def decodeAudioData_def Int16Array_of_buffer_def split: option.splits)

lemma malformed_raises:
  "\<not> well_formed chunk \<longleftrightarrow>
     decodeAudioData chunk = Inl InvalidCharacterError \<or> decodeAudioData chunk = Inl RangeError"
  by (auto simp add: well_formed_def decodeAudioData_def Int16Array_of_buffer_def split: option.splits)

section \<open>Facts about the scheduler\<close>

lemma duration_nonneg: "0 \<le> duration b"
  by (simp add: duration_def)

lemma no_overlap_snoc:
  "no_overlap (ns @ [n]) \<longleftrightarrow>
     no_overlap ns \<and> (ns \<noteq> [] \<longrightarrow> startTime (last ns) + duration (buffer (last ns)) \<le> startTime n)"
  by (induction ns rule: no_overlap.induct) auto

lemma no_overlap_nth:
  "no_overlap ns \<Longrightarrow> Suc i < length ns \<Longrightarrow>
     startTime (ns ! i) + duration (buffer (ns ! i)) \<le> startTime (ns ! Suc i)"
proof (induction ns arbitrary: i rule: no_overlap.induct)
  case (1 m n rest)
  then show ?case by (cases i) auto
qed simp_all

lemma chained_step: "chained pre a \<Longrightarrow> sched_step a b \<Longrightarrow> chained pre b"
proof -
  assume c: "chained pre a" and s: "sched_step a b"
  from c obtain ns where ns: "fst a = pre @ ns" "no_overlap ns"
      "ns \<noteq> [] \<longrightarrow> startTime (last ns) + duration (buffer (last ns)) \<le> snd a"
    unfolding chained_def by blast
  from s consider "b = a" |
    buf t h where "b = (fst a @ [\<lparr>buffer = buf, startTime = max t (snd a), playback = Scheduled,
                                  onended = h\<rparr>],
                   max t (snd a) + duration buf)"
    unfolding sched_step_def by blast
  then show ?thesis
  proof cases
    case 1
    then show ?thesis using c by simp
  next
    case 2
    let ?n = "\<lparr>buffer = buf, startTime = max t (snd a), playback = Scheduled, onended = h\<rparr>"
    have "fst b = pre @ (ns @ [?n])" using 2 ns(1) by simp
    moreover have "no_overlap (ns @ [?n])"
      using ns(2,3) by (auto simp add: no_overlap_snoc)
    moreover have "startTime (last (ns @ [?n])) + duration (buffer (last (ns @ [?n]))) \<le> snd b"
      using 2 by simp
    ultimately show ?thesis unfolding chained_def by blast
  qed
qed

lemma scheduleChunk_step:
  "sched_step (nodes st, nextStartTimeRef st)
     (nodes (snd (scheduleChunk st t chunk)), nextStartTimeRef (snd (scheduleChunk st t chunk)))"
  by (auto simp add: scheduleChunk_def sched_step_def Let_def split: option.splits sum.splits)

lemma onmessage_step:
  "sched_step (lv_nodes st, lv_nextStartTimeRef st)
     (lv_nodes (case onmessage st t rnd msg of Inl e \<Rightarrow> st | Inr st' \<Rightarrow> st'),
      lv_nextStartTimeRef (case onmessage st t rnd msg of Inl e \<Rightarrow> st | Inr st' \<Rightarrow> st'))"
  by (auto simp add: onmessage_def sched_step_def Let_def split: option.splits sum.splits)

lemma onAudioChunk_step:
  "sched_step (nodes st, nextStartTimeRef st)
     (nodes (snd (onAudioChunk st first t chunk)),
      nextStartTimeRef (snd (onAudioChunk st first t chunk)))"
  using scheduleChunk_step[of "st\<lparr>isLoadingAudio := False\<rparr>" t chunk] scheduleChunk_step[of st t chunk]
  by (simp add: onAudioChunk_def)

lemma streamChunks_chained:
  "chained pre (nodes st, nextStartTimeRef st) \<Longrightarrow>
   chained pre (nodes (snd (streamChunks st first active arrivals)),
                nextStartTimeRef (snd (streamChunks st first active arrivals)))"
proof (induction arrivals arbitrary: st first active)
  case Nil
  then show ?case by simp
next
  case (Cons a arrivals)
  obtain t chunk where a: "a = (t, chunk)" by (cases a)
  have "chained pre (nodes (snd (onAudioChunk st first t chunk)),
                     nextStartTimeRef (snd (onAudioChunk st first t chunk)))"
    using chained_step[OF Cons.prems onAudioChunk_step] .
  from Cons.IH[OF this] show ?case by (simp add: a)
qed

lemma feed_chained:
  "chained pre (nodes st, nextStartTimeRef st) \<Longrightarrow>
   chained pre (nodes (feed st arrivals), nextStartTimeRef (feed st arrivals))"
  unfolding feed_def by (rule streamChunks_chained)

lemma deliver_chained:
  "chained pre (lv_nodes st, lv_nextStartTimeRef st) \<Longrightarrow>
   chained pre (lv_nodes (deliver st messages), lv_nextStartTimeRef (deliver st messages))"
proof (induction messages arbitrary: st)
  case Nil
  then show ?case by simp
next
  case (Cons a messages)
  obtain t rnd msg where a: "a = (t, rnd, msg)" by (cases a)
  let ?st = "case onmessage st t rnd msg of Inl e \<Rightarrow> st | Inr st' \<Rightarrow> st'"
  have "chained pre (lv_nodes ?st, lv_nextStartTimeRef ?st)"
    using chained_step[OF Cons.prems onmessage_step] .
  from Cons.IH[OF this] show ?case by (simp add: a)
qed

lemma no_overlap_fed: "no_overlap (fed st arrivals)"
proof -
  have "chained (nodes st) (nodes st, nextStartTimeRef st)"
    by (simp add: chained_def)
  from feed_chained[OF this, of arrivals] show ?thesis
    by (auto simp add: chained_def fed_def)
qed

lemma no_overlap_delivered: "no_overlap (delivered st messages)"
proof -
  have "chained (lv_nodes st) (lv_nodes st, lv_nextStartTimeRef st)"
    by (simp add: chained_def)
  from deliver_chained[OF this, of messages] show ?thesis
    by (auto simp add: chained_def delivered_def)
qed

lemma decode_empty: "decodeAudioData [] = Inr []"
  by code_simp

lemma length_stop_source: "length (stop_source ns i) = length ns"
  by (simp add: stop_source_def split: sum.splits)

lemma length_stop_all: "length (foldl stop_source ns is) = length ns"
  by (induction "is" arbitrary: ns) (simp_all add: length_stop_source)

lemma stop_source_nth:
  "j < length ns \<Longrightarrow>
   stop_source ns i ! j =
     (if j = i \<and> playback (ns ! j) = Scheduled then (ns ! j)\<lparr>playback := Halted\<rparr> else ns ! j)"
  by (cases "playback (ns ! i)") (auto simp add: stop_source_def node_stop_def nth_list_update)

lemma stop_all_nth:
  "j < length ns \<Longrightarrow>
   foldl stop_source ns is ! j =
     (if j \<in> set is \<and> playback (ns ! j) = Scheduled then (ns ! j)\<lparr>playback := Halted\<rparr> else ns ! j)"
proof (induction "is" arbitrary: ns)
  case Nil
  then show ?case by simp
next
  case (Cons i "is")
  have "j < length (stop_source ns i)" using Cons.prems by (simp add: length_stop_source)
  from Cons.IH[OF this] show ?case
    using Cons.prems by (auto simp add: stop_source_nth)
qed

lemma scheduleChunk_cursor:
  "nextStartTimeRef st \<le> nextStartTimeRef (snd (scheduleChunk st t chunk))"
proof -
  have "c \<le> max t c + duration buf" for c buf
    using duration_nonneg[of buf] by linarith
  then show ?thesis
    by (auto simp add: scheduleChunk_def Let_def split: option.splits sum.splits)
qed

lemma onmessage_cursor:
  "lv_nextStartTimeRef lv \<le>
     lv_nextStartTimeRef (case onmessage lv t rnd msg of Inl e \<Rightarrow> lv | Inr lv' \<Rightarrow> lv')"
proof -
  have "c \<le> max t c + duration buf" for c buf
    using duration_nonneg[of buf] by linarith
  then show ?thesis
    by (auto simp add: onmessage_def Let_def split: option.splits sum.splits)
qed

lemma onAudioChunk_cursor:
  "nextStartTimeRef st \<le> nextStartTimeRef (snd (onAudioChunk st first t chunk))"
  using scheduleChunk_cursor[of "st\<lparr>isLoadingAudio := False\<rparr>" t chunk] scheduleChunk_cursor[of st t chunk]
  by (simp add: onAudioChunk_def)

lemma streamFinished_cursor: "nextStartTimeRef (streamFinished st active) = nextStartTimeRef st"
  by (simp add: streamFinished_def split: option.split)

lemma source_ended_cursor: "nextStartTimeRef (source_ended st t i) = nextStartTimeRef st"
  by (simp add: source_ended_def Let_def split: ended_handler.split)

lemma bubble_cleanup_cursor: "nextStartTimeRef (bubble_cleanup st) = 0"
  by (simp add: bubble_cleanup_def stopAudio_def Let_def ctx_close_def split: option.splits)

section \<open>Facts about the capture side\<close>

lemma sum_squares_nonneg: "0 \<le> (\<Sum>x\<leftarrow>xs. x * x)" for xs :: "real list"
  by (induction xs) simp_all

lemma sum_squares_zero: "\<forall>x\<in>set xs. x = 0 \<Longrightarrow> (\<Sum>x\<leftarrow>xs. x * x) = 0" for xs :: "real list"
  by (induction xs) simp_all

lemma sum_squares_full: "\<forall>x\<in>set xs. \<bar>x\<bar> = 1 \<Longrightarrow> (\<Sum>x\<leftarrow>xs. x * x) = real (length xs)"
  for xs :: "real list"
proof (induction xs)
  case Nil
  then show ?case by simp
next
  case (Cons a xs)
  have "\<bar>a\<bar> = 1" using Cons.prems by simp
  then have "a * a = 1" by (metis abs_mult_self_eq mult_1)
  then show ?case using Cons by simp
qed

lemma loudness_Some:
  "inputData \<noteq> [] \<Longrightarrow>
   loudness inputData = Some (min (sqrt ((\<Sum>x\<leftarrow>inputData. x * x) / real (length inputData)) * 5) 1)"
  by (simp add: loudness_def Let_def)

section \<open>Facts about teardown\<close>

lemma stop_tracks_fields:
  "mediaStreamRef (stop_tracks st) = map_option (map (\<lambda>track. TrackEnded)) (mediaStreamRef st)"
  "processorRef (stop_tracks st) = processorRef st"
  "sourceRef (stop_tracks st) = sourceRef st"
  "lv_audioContextRef (stop_tracks st) = lv_audioContextRef st"
  "lv_nextStartTimeRef (stop_tracks st) = lv_nextStartTimeRef st"
  by (simp_all add: stop_tracks_def split: option.split)

lemma disconnect_processor_fields:
  "mediaStreamRef (disconnect_processor st) = mediaStreamRef st"
  "processorRef (disconnect_processor st) = map_option (\<lambda>p. Unwired) (processorRef st)"
  "sourceRef (disconnect_processor st) = sourceRef st"
  "lv_audioContextRef (disconnect_processor st) = lv_audioContextRef st"
  "lv_nextStartTimeRef (disconnect_processor st) = lv_nextStartTimeRef st"
  by (simp_all add: disconnect_processor_def split: option.split)

lemma disconnect_source_fields:
  "mediaStreamRef (disconnect_source st) = mediaStreamRef st"
  "processorRef (disconnect_source st) = processorRef st"
  "sourceRef (disconnect_source st) = map_option (\<lambda>s. Unwired) (sourceRef st)"
  "lv_audioContextRef (disconnect_source st) = lv_audioContextRef st"
  "lv_nextStartTimeRef (disconnect_source st) = lv_nextStartTimeRef st"
  by (simp_all add: disconnect_source_def split: option.split)

lemma close_context_fields:
  "mediaStreamRef (close_context st) = mediaStreamRef st"
  "processorRef (close_context st) = processorRef st"
  "sourceRef (close_context st) = sourceRef st"
  "lv_audioContextRef (close_context st) = map_option (\<lambda>c. Closed) (lv_audioContextRef st)"
  "lv_nextStartTimeRef (close_context st) = lv_nextStartTimeRef st"
  by (simp_all add: close_context_def ctx_close_def split: option.split)

lemma live_cleanup_fields:
  "mediaStreamRef (live_cleanup st) = map_option (map (\<lambda>track. TrackEnded)) (mediaStreamRef st)"
  "processorRef (live_cleanup st) = map_option (\<lambda>p. Unwired) (processorRef st)"
  "sourceRef (live_cleanup st) = map_option (\<lambda>s. Unwired) (sourceRef st)"
  "lv_audioContextRef (live_cleanup st) = map_option (\<lambda>c. Closed) (lv_audioContextRef st)"
  "lv_nextStartTimeRef (live_cleanup st) = lv_nextStartTimeRef st"
  by (simp_all add: live_cleanup_def close_context_fields disconnect_source_fields
      disconnect_processor_fields stop_tracks_fields)

lemma live_cleanup_inputCtx: "inputCtx (live_cleanup st) = inputCtx st"
  by (simp add: live_cleanup_def close_context_def disconnect_source_def
      disconnect_processor_def stop_tracks_def ctx_close_def split: option.split)

text \<open>
  The cleanup releases what the refs hold. Whether everything is released afterwards is
  decided by the capture context alone, which the cleanup does not touch.
\<close>

lemma released_live_cleanup:
  "released (live_cleanup st) = (case inputCtx st of None \<Rightarrow> True | Some c \<Rightarrow> c = Closed)"
  unfolding released_def live_cleanup_fields live_cleanup_inputCtx
  by (simp add: list_all_iff split: option.split)

text \<open>
  A second run of the cleanup finds the tracks ended, the nodes disconnected and the
  context closed. It changes no ref, but it calls \<open>close()\<close> again whenever there is a
  context, and that promise is rejected.
\<close>

lemma live_cleanup_twice:
  "live_cleanup (live_cleanup st) =
     (live_cleanup st)\<lparr>rejected := rejected (live_cleanup st) @
        (case lv_audioContextRef st of None \<Rightarrow> [] | Some c \<Rightarrow> [InvalidStateError])\<rparr>"
  by (cases "mediaStreamRef st"; cases "processorRef st"; cases "sourceRef st";
      cases "lv_audioContextRef st")
     (simp_all add: live_cleanup_def close_context_def disconnect_source_def
        disconnect_processor_def stop_tracks_def ctx_close_def)

lemma live_cleanup_init: "live_cleanup live_init = live_init\<lparr>mountedRef := False\<rparr>"
  by (simp add: live_cleanup_def close_context_def disconnect_source_def
      disconnect_processor_def stop_tracks_def live_init_def)

lemma stopAudio_twice: "stopAudio (stopAudio st) = stopAudio st"
  by (simp add: stopAudio_def)

lemma bubble_cleanup_twice: "bubble_cleanup (bubble_cleanup b) = bubble_cleanup b"
  by (cases "audioContextRef b")
     (simp_all add: bubble_cleanup_def Let_def ctx_close_def stopAudio_def)

lemma bubble_cleanup_ctx:
  "audioContextRef (bubble_cleanup b) = None \<or> audioContextRef (bubble_cleanup b) = Some Closed"
  by (cases "audioContextRef b")
     (simp_all add: bubble_cleanup_def Let_def ctx_close_def stopAudio_def)

lemma bubble_cleanup_init: "bubble_cleanup bubble_init = bubble_init"
  by (simp add: bubble_cleanup_def bubble_init_def stopAudio_def Let_def)

text \<open>
  The cleanup of the player leaves no pending node playing: the nodes are those
  \<open>stopAudio\<close> leaves, so a pending node that was scheduled is halted and every other node
  is as it was.
\<close>

lemma bubble_cleanup_nodes: "nodes (bubble_cleanup b) = foldl stop_source (nodes b) (sourcesRef b)"
  by (cases "audioContextRef b")
     (simp_all add: bubble_cleanup_def Let_def ctx_close_def stopAudio_def)

lemma bubble_cleanup_nth:
  "j < length (nodes b) \<Longrightarrow>
   nodes (bubble_cleanup b) ! j =
     (if j \<in> set (sourcesRef b) \<and> playback (nodes b ! j) = Scheduled
      then (nodes b ! j)\<lparr>playback := Halted\<rparr> else nodes b ! j)"
  unfolding bubble_cleanup_nodes by (rule stop_all_nth)

lemma bubble_cleanup_sourcesRef: "sourcesRef (bubble_cleanup b) = []"
  by (cases "audioContextRef b")
     (simp_all add: bubble_cleanup_def Let_def ctx_close_def stopAudio_def)

section \<open>Facts about malformed chunks\<close>

lemma scheduleChunk_malformed:
  assumes "\<not> well_formed chunk" and "audioContextRef st \<noteq> None"
  shows "\<exists>e. decodeAudioData chunk = Inl e \<and>
             scheduleChunk st t chunk = (None, st\<lparr>console := console st @ [e]\<rparr>)"
proof -
  from assms(1) obtain e where e: "decodeAudioData chunk = Inl e"
    using malformed_raises by blast
  from assms(2) obtain c where "audioContextRef st = Some c" by auto
  then show ?thesis using e by (simp add: scheduleChunk_def)
qed

lemma onmessage_malformed:
  assumes "\<not> well_formed chunk" and "mountedRef st" and "lv_audioContextRef st \<noteq> None"
  shows "\<exists>e. decodeAudioData chunk = Inl e \<and> onmessage st t rnd (Some chunk) = Inl e"
proof -
  from assms(1) obtain e where e: "decodeAudioData chunk = Inl e"
    using malformed_raises by blast
  have "chunk \<noteq> []" using e decode_empty by auto
  then show ?thesis using e assms(2,3) by (simp add: onmessage_def)
qed

text \<open>
  After a malformed chunk the player schedules the next chunk exactly as it would have
  without it (only the log differs), and the voice session, whose handler threw, is in
  the state it was in.
\<close>

lemma scheduleChunk_after_malformed:
  assumes "\<not> well_formed bad" and "audioContextRef st \<noteq> None"
  shows "fst (scheduleChunk (snd (scheduleChunk st t bad)) t' chunk) = fst (scheduleChunk st t' chunk) \<and>
         nodes (snd (scheduleChunk (snd (scheduleChunk st t bad)) t' chunk))
           = nodes (snd (scheduleChunk st t' chunk)) \<and>
         nextStartTimeRef (snd (scheduleChunk (snd (scheduleChunk st t bad)) t' chunk))
           = nextStartTimeRef (snd (scheduleChunk st t' chunk)) \<and>
         sourcesRef (snd (scheduleChunk (snd (scheduleChunk st t bad)) t' chunk))
           = sourcesRef (snd (scheduleChunk st t' chunk))"
proof -
  from scheduleChunk_malformed[OF assms, of t] obtain e where
    e: "scheduleChunk st t bad = (None, st\<lparr>console := console st @ [e]\<rparr>)"
    by blast
  show ?thesis
    unfolding e
    by (simp add: scheduleChunk_def Let_def split: option.split sum.split)
qed

lemma deliver_after_malformed:
  assumes "\<not> well_formed bad" and "mountedRef st" and "lv_audioContextRef st \<noteq> None"
  shows "deliver st ((t, rnd, Some bad) # rest) = deliver st rest"
proof -
  from onmessage_malformed[OF assms, of t rnd] obtain e where
    "onmessage st t rnd (Some bad) = Inl e" by blast
  then show ?thesis by simp
qed

text \<open>
  The rejected promise of the second run, on any session that has an output context.
\<close>

lemma live_cleanup_second_close_rejected:
  assumes "lv_audioContextRef st \<noteq> None"
  shows "rejected (live_cleanup (live_cleanup st)) = rejected (live_cleanup st) @ [InvalidStateError]"
proof -
  have c: "lv_audioContextRef (disconnect_source (disconnect_processor (stop_tracks
             (live_cleanup st\<lparr>mountedRef := False\<rparr>)))) = Some Closed"
    using assms
    by (auto simp add: disconnect_source_fields disconnect_processor_fields stop_tracks_fields
        live_cleanup_fields)
  have r: "rejected (disconnect_source (disconnect_processor (stop_tracks
             (live_cleanup st\<lparr>mountedRef := False\<rparr>)))) = rejected (live_cleanup st)"
    by (simp add: disconnect_source_def disconnect_processor_def stop_tracks_def
        split: option.split)
  show ?thesis
    unfolding live_cleanup_def[of "live_cleanup st"]
    by (simp add: close_context_def c ctx_close_def r)
qed

section \<open>The claims\<close>

subsection \<open>C1: scheduled fragments never overlap\<close>

text \<open>
  C1: for every sequence of chunks handed to the scheduler, at whatever clock readings
  they arrive, the fragments it starts have non-decreasing start times and each starts no
  earlier than the one before it ends (start plus duration). This holds for the stream of
  \<open>scheduleChunk\<close> calls of the text-to-speech player and for the stream of \<open>onmessage\<close>
  calls of the voice session; chunks that fail to decode start no fragment. The
  assumption of the claim that arrival times do not decrease is not needed.
\<close>

theorem C1_no_overlap:
  "(\<forall>i. Suc i < length (fed st arrivals) \<longrightarrow>
       startTime (fed st arrivals ! i) + duration (buffer (fed st arrivals ! i))
         \<le> startTime (fed st arrivals ! Suc i) \<and>
       startTime (fed st arrivals ! i) \<le> startTime (fed st arrivals ! Suc i)) \<and>
   (\<forall>i. Suc i < length (delivered lv messages) \<longrightarrow>
       startTime (delivered lv messages ! i) + duration (buffer (delivered lv messages ! i))
         \<le> startTime (delivered lv messages ! Suc i) \<and>
       startTime (delivered lv messages ! i) \<le> startTime (delivered lv messages ! Suc i))"
proof -
  have "startTime (ns ! i) + duration (buffer (ns ! i)) \<le> startTime (ns ! Suc i) \<and>
        startTime (ns ! i) \<le> startTime (ns ! Suc i)"
    if "no_overlap ns" and "Suc i < length ns" for ns i
    using no_overlap_nth[OF that] duration_nonneg[of "buffer (ns ! i)"] by linarith
  then show ?thesis
    using no_overlap_fed[of st arrivals] no_overlap_delivered[of lv messages] by blast
qed

text \<open>
  Tried on three chunks of 3, 1 and 2 samples with a chunk of odd byte length between
  them, the last arriving after a pause.
\<close>

theorem C1_no_overlap_witness:
  "Suc 0 < length (fed started_player
                    [(0, ''AAAAAAAA''), (0, ''AAA''), (0, ''AAAA''), (1, ''AAAAAA'')]) \<and>
   startTime (fed started_player
                [(0, ''AAAAAAAA''), (0, ''AAA''), (0, ''AAAA''), (1, ''AAAAAA'')] ! 0) +
     duration (buffer (fed started_player
                [(0, ''AAAAAAAA''), (0, ''AAA''), (0, ''AAAA''), (1, ''AAAAAA'')] ! 0))
     \<le> startTime (fed started_player
                [(0, ''AAAAAAAA''), (0, ''AAA''), (0, ''AAAA''), (1, ''AAAAAA'')] ! Suc 0) \<and>
   Suc 1 < length (delivered connected_session
                    [(0, 0, Some ''AAAAAAAA''), (0, 0, Some ''AAAA''), (0, 0, Some ''AAA''),
                     (1, 0, Some ''AAAAAA'')]) \<and>
   startTime (delivered connected_session
                    [(0, 0, Some ''AAAAAAAA''), (0, 0, Some ''AAAA''), (0, 0, Some ''AAA''),
                     (1, 0, Some ''AAAAAA'')] ! 1) +
     duration (buffer (delivered connected_session
                    [(0, 0, Some ''AAAAAAAA''), (0, 0, Some ''AAAA''), (0, 0, Some ''AAA''),
                     (1, 0, Some ''AAAAAA'')] ! 1))
     \<le> startTime (delivered connected_session
                    [(0, 0, Some ''AAAAAAAA''), (0, 0, Some ''AAAA''), (0, 0, Some ''AAA''),
                     (1, 0, Some ''AAAAAA'')] ! Suc 1)"
proof -
  let ?f = "fed started_player
              [(0, ''AAAAAAAA''), (0, ''AAA''), (0, ''AAAA''), (1, ''AAAAAA'')]"
  let ?d = "delivered connected_session
              [(0, 0, Some ''AAAAAAAA''), (0, 0, Some ''AAAA''), (0, 0, Some ''AAA''),
               (1, 0, Some ''AAAAAA'')]"
  have f: "Suc 0 < length ?f" by code_simp
  have d: "Suc 1 < length ?d" by code_simp
  show ?thesis
    using f d C1_no_overlap[of started_player
        "[(0, ''AAAAAAAA''), (0, ''AAA''), (0, ''AAAA''), (1, ''AAAAAA'')]"
        connected_session
        "[(0, 0, Some ''AAAAAAAA''), (0, 0, Some ''AAAA''), (0, 0, Some ''AAA''),
          (1, 0, Some ''AAAAAA'')]"]
    by blast
qed

subsection \<open>C2: reconstruction error of the codec\<close>

text \<open>
  C2 as stated: for every sample sequence \<open>x\<close> with values in \<open>[-1, 1]\<close>,
  \<open>decode (encode x)\<close> has the length of \<open>x\<close> and every sample is reconstructed with an
  error of at most one quantization step, \<open>1/32768\<close>. The bound fails: a non-negative
  sample is scaled by \<open>32767\<close> and truncated, but divided by \<open>32768\<close> on the way back, so
  the error is the truncation loss plus \<open>x/32768\<close>. At \<open>x = 65535/65536\<close> (a 32-bit
  float) the stored integer is \<open>32766\<close>, the decoded sample \<open>16383/16384\<close> and the error
  \<open>1.5/32768\<close>.
\<close>

theorem C2_error_bound_counterexample:
  "- 1 \<le> (65535 / 65536 :: real) \<and> (65535 / 65536 :: real) \<le> 1 \<and>
   decodeAudioData (encodeAudio [65535 / 65536]) = Inr [16383 / 16384] \<and>
   \<not> \<bar>16383 / 16384 - 65535 / 65536 :: real\<bar> \<le> 1 / 32768"
proof -
  have "from_int16 (pcm16 (65535 / 65536)) = real_of_int \<lfloor>65535 / 65536 * 32767 :: real\<rfloor>"
    by (rule pcm16_nonneg) simp_all
  then have "from_int16 (pcm16 (65535 / 65536)) = 32766" by simp
  then show ?thesis by (simp add: decode_encode)
qed

text \<open>
  C2 as amended: for every sample sequence \<open>x\<close> (the empty one included) with values in
  \<open>[-1, 1]\<close>, \<open>decodeAudioData (encodeAudio x)\<close> returns a sequence of the same length,
  and at every index the reconstruction error is less than two quantization steps,
  \<open>2/32768\<close>; for a negative sample it is less than one step, \<open>1/32768\<close>.
\<close>

theorem C2_roundtrip_error:
  assumes "\<forall>s\<in>set x. - 1 \<le> s \<and> s \<le> 1"
  shows "\<exists>y. decodeAudioData (encodeAudio x) = Inr y \<and> length y = length x \<and>
           (\<forall>i<length x. \<bar>y ! i - x ! i\<bar> < 2 / 32768 \<and>
                            (x ! i < 0 \<longrightarrow> \<bar>y ! i - x ! i\<bar> < 1 / 32768))"
proof -
  let ?y = "map (\<lambda>s. from_int16 (pcm16 s) / 32768) x"
  have "\<bar>?y ! i - x ! i\<bar> < 2 / 32768 \<and> (x ! i < 0 \<longrightarrow> \<bar>?y ! i - x ! i\<bar> < 1 / 32768)"
    if i: "i < length x" for i
  proof -
    have r: "- 1 \<le> x ! i" "x ! i \<le> 1" using assms i by simp_all
    show ?thesis
    proof (cases "x ! i < 0")
      case True
      then show ?thesis using error_neg[OF r(1) True] i by simp
    next
      case False
      then have "0 \<le> x ! i" by simp
      then show ?thesis using error_nonneg[OF _ r(2)] i False by simp
    qed
  qed
  then show ?thesis using decode_encode[of x] by simp
qed

theorem C2_roundtrip_error_witness:
  "- 1 \<le> (65535 / 65536 :: real) \<and> (65535 / 65536 :: real) \<le> 1 \<and>
   - 1 \<le> (- 1 / 3 :: real) \<and> (- 1 / 3 :: real) \<le> 1 \<and>
   (\<exists>y. decodeAudioData (encodeAudio [65535 / 65536, - 1 / 3]) = Inr y \<and> length y = 2 \<and>
        \<bar>y ! 0 - 65535 / 65536\<bar> < 2 / 32768 \<and> \<bar>y ! 1 - (- 1 / 3)\<bar> < 1 / 32768)"
proof -
  let ?x = "[65535 / 65536, - 1 / 3 :: real]"
  have h: "\<forall>s\<in>set ?x. - 1 \<le> s \<and> s \<le> 1" by simp
  from C2_roundtrip_error[OF h] obtain y where
    y: "decodeAudioData (encodeAudio ?x) = Inr y" "length y = length ?x"
    and e: "\<And>i. i < length ?x \<Longrightarrow> \<bar>y ! i - ?x ! i\<bar> < 2 / 32768 \<and>
          (?x ! i < 0 \<longrightarrow> \<bar>y ! i - ?x ! i\<bar> < 1 / 32768)"
    by blast
  have "\<bar>y ! 0 - ?x ! 0\<bar> < 2 / 32768" using e[of 0] by simp
  then have 0: "\<bar>y ! 0 - 65535 / 65536\<bar> < 2 / 32768" by simp
  have "?x ! 1 < 0 \<longrightarrow> \<bar>y ! 1 - ?x ! 1\<bar> < 1 / 32768" using e[of 1] by simp
  then have 1: "\<bar>y ! 1 - (- 1 / 3)\<bar> < 1 / 32768" by simp
  have 2: "length y = 2" using y(2) by simp
  have 3: "- 1 \<le> (65535 / 65536 :: real) \<and> (65535 / 65536 :: real) \<le> 1 \<and>
    - 1 \<le> (- 1 / 3 :: real) \<and> (- 1 / 3 :: real) \<le> 1" by simp
  show ?thesis using 3 y(1) 0 1 2 by blast
qed

subsection \<open>C3: stop\<close>

text \<open>
  C3 as stated: stop halts every pending fragment (an already finished one is left as it
  is), empties the pending set and resets the cursor to zero; calling it again, or
  calling it with nothing pending, raises no error and leaves the state unchanged. The
  last part fails: with nothing pending, \<open>stopAudio\<close> still resets the cursor and the
  speaking flag. In the player that was stopped and started again at device time 5,
  before the first chunk of the new stream, nothing is pending and the cursor is 5;
  \<open>stopAudio\<close> (run by the next click or by the unmount cleanup) sets it to 0.
\<close>

theorem C3_stop_counterexample:
  "sourcesRef restarted_player = [] \<and>
   nextStartTimeRef restarted_player = 5 \<and>
   nextStartTimeRef (stopAudio restarted_player) = 0 \<and>
   stopAudio restarted_player \<noteq> restarted_player"
proof -
  have 1: "sourcesRef restarted_player = []" by code_simp
  have 2: "nextStartTimeRef restarted_player = 5" by code_simp
  have 3: "nextStartTimeRef (stopAudio restarted_player) = 0" by (simp add: stopAudio_def)
  have 4: "stopAudio restarted_player \<noteq> restarted_player"
  proof
    assume "stopAudio restarted_player = restarted_player"
    then have "nextStartTimeRef (stopAudio restarted_player) = nextStartTimeRef restarted_player"
      by simp
    then show False unfolding 2 3 by simp
  qed
  show ?thesis using 1 2 3 4 by blast
qed

text \<open>
  C3 as amended: \<open>stopAudio\<close> empties the pending set and resets the cursor to zero; every
  node listed as pending that was still scheduled is halted, a listed node that has
  finished or was halted before is left as it is, and so is every node not listed; a
  second call right after the first changes nothing (\<open>stopAudio\<close> is idempotent); with
  nothing pending the call halts nothing and only clears the speaking flag and the
  cursor. \<open>stopAudio\<close> has no failing outcome: what \<open>source.stop()\<close> throws is caught.
\<close>

theorem C3_stop:
  "sourcesRef (stopAudio st) = [] \<and>
   nextStartTimeRef (stopAudio st) = 0 \<and>
   length (nodes (stopAudio st)) = length (nodes st) \<and>
   (\<forall>j<length (nodes st).
      nodes (stopAudio st) ! j =
        (if j \<in> set (sourcesRef st) \<and> playback (nodes st ! j) = Scheduled
         then (nodes st ! j)\<lparr>playback := Halted\<rparr> else nodes st ! j)) \<and>
   stopAudio (stopAudio st) = stopAudio st \<and>
   (sourcesRef st = [] \<longrightarrow> stopAudio st = st\<lparr>isSpeaking := False, nextStartTimeRef := 0\<rparr>)"
  by (simp add: stopAudio_def length_stop_all stop_all_nth)

text \<open>
  Tried on the player that replays: of the two nodes listed, the one left from the first
  stream has played to its end and the one of the second stream is scheduled. And tried
  on the initial player, where nothing is pending.
\<close>

theorem C3_stop_witness:
  "1 < length (nodes replaying_player) \<and> 2 < length (nodes replaying_player) \<and>
   sourcesRef replaying_player = [1, 2] \<and>
   playback (nodes replaying_player ! 1) = Ended \<and>
   playback (nodes replaying_player ! 2) = Scheduled \<and>
   playback (nodes (stopAudio replaying_player) ! 1) = Ended \<and>
   playback (nodes (stopAudio replaying_player) ! 2) = Halted \<and>
   sourcesRef (stopAudio replaying_player) = [] \<and>
   nextStartTimeRef (stopAudio replaying_player) = 0 \<and>
   stopAudio (stopAudio replaying_player) = stopAudio replaying_player \<and>
   sourcesRef bubble_init = [] \<and>
   stopAudio bubble_init = bubble_init\<lparr>isSpeaking := False, nextStartTimeRef := 0\<rparr>"
proof -
  let ?S = "replaying_player"
  have l1: "1 < length (nodes ?S)" and l2: "2 < length (nodes ?S)" by code_simp+
  have s: "sourcesRef ?S = [1, 2]" by code_simp
  have p1: "playback (nodes ?S ! 1) = Ended" and p2: "playback (nodes ?S ! 2) = Scheduled"
    by code_simp+
  have m2: "2 \<in> set (sourcesRef ?S)" unfolding s by simp
  have e: "sourcesRef bubble_init = []" by (simp add: bubble_init_def)
  have h: "playback (n\<lparr>playback := Halted\<rparr>) = Halted" for n :: source_node by simp
  note w = C3_stop[of ?S]
  from w have n: "nodes (stopAudio ?S) ! j =
        (if j \<in> set (sourcesRef ?S) \<and> playback (nodes ?S ! j) = Scheduled
         then (nodes ?S ! j)\<lparr>playback := Halted\<rparr> else nodes ?S ! j)" if "j < length (nodes ?S)" for j
    using that by blast
  have 1: "playback (nodes (stopAudio ?S) ! 1) = Ended"
    by (simp only: n[OF l1] p1 playback.distinct simp_thms if_False)
  have 2: "playback (nodes (stopAudio ?S) ! 2) = Halted"
    by (simp only: n[OF l2] p2 m2 simp_thms if_True h)
  from w have 3: "sourcesRef (stopAudio ?S) = []" and 4: "nextStartTimeRef (stopAudio ?S) = 0"
    and 5: "stopAudio (stopAudio ?S) = stopAudio ?S"
    by blast+
  have 6: "stopAudio bubble_init = bubble_init\<lparr>isSpeaking := False, nextStartTimeRef := 0\<rparr>"
    using C3_stop[of bubble_init] e by blast
  show ?thesis using l1 l2 s p1 p2 1 2 3 4 5 e 6 by blast
qed

subsection \<open>C4: loudness and mute\<close>

text \<open>
  C4 as stated: for every capture frame the loudness \<open>min(rms * gain, 1)\<close> is computed
  and published whether or not the source is muted; muting skips only the encode and
  send step. In the code the mute test is the first statement of the handler and
  returns: in the muted session a frame of full-scale samples, whose loudness is 1,
  leaves the published value at 0.
\<close>

theorem C4_muted_counterexample:
  "isMuted muted_session \<and>
   loudness [1, 1] = Some 1 \<and>
   volumeLevel (onaudioprocess muted_session [1, 1]) = Some 0 \<and>
   volumeLevel (onaudioprocess muted_session [1, 1]) \<noteq> loudness [1, 1]"
proof -
  have m: "isMuted muted_session" by code_simp
  have v: "volumeLevel muted_session = Some 0" by code_simp
  have l: "loudness [1, 1] = Some 1" by (simp add: loudness_def)
  have o: "onaudioprocess muted_session [1, 1] = muted_session"
    by (simp add: onaudioprocess_def m)
  show ?thesis unfolding o l v using m by simp
qed

text \<open>
  C4 as amended: for every capture frame processed while not muted, the loudness
  \<open>min(rms * 5, 1)\<close> is published and the encoded frame is sent; while muted the handler
  returns at once, so neither the loudness step nor the encode and send step runs and the
  published loudness keeps its previous value.
\<close>

theorem C4_capture_frame:
  "(\<not> isMuted st \<longrightarrow>
      volumeLevel (onaudioprocess st inputData) = loudness inputData \<and>
      sent (onaudioprocess st inputData) = sent st @ [encodeAudio inputData]) \<and>
   (isMuted st \<longrightarrow> onaudioprocess st inputData = st)"
  by (simp add: onaudioprocess_def)

theorem C4_capture_frame_witness:
  "\<not> isMuted connected_session \<and>
   volumeLevel (onaudioprocess connected_session [1, 1]) = loudness [1, 1] \<and>
   sent (onaudioprocess connected_session [1, 1]) = sent connected_session @ [encodeAudio [1, 1]] \<and>
   isMuted muted_session \<and>
   onaudioprocess muted_session [1, 1] = muted_session"
proof -
  have u: "\<not> isMuted connected_session" by code_simp
  have m: "isMuted muted_session" by code_simp
  show ?thesis
    using u m C4_capture_frame[of connected_session "[1, 1]"]
      C4_capture_frame[of muted_session "[1, 1]"]
    by blast
qed

subsection \<open>C5: how the cursor moves\<close>

text \<open>
  C5 as stated: the cursor only ever increases or is reset to the device's current time
  at session start; no operation sets it to any other smaller value. \<open>stopAudio\<close> does:
  it assigns zero. After one fragment of three samples the cursor is \<open>1/8000\<close>; a stop
  at device time 3 sets it to 0, which is smaller and is not the device time. The stream
  is not cancelled by the stop: its next chunk is scheduled as usual.
\<close>

theorem C5_cursor_counterexample:
  "nextStartTimeRef (feed started_player [(0, ''AAAAAAAA'')]) = 1 / 8000 \<and>
   nextStartTimeRef (bubble_step (feed started_player [(0, ''AAAAAAAA'')]) 3 StopAudio) = 0 \<and>
   \<not> nextStartTimeRef (feed started_player [(0, ''AAAAAAAA'')])
       \<le> nextStartTimeRef (bubble_step (feed started_player [(0, ''AAAAAAAA'')]) 3 StopAudio) \<and>
   nextStartTimeRef (bubble_step (feed started_player [(0, ''AAAAAAAA'')]) 3 StopAudio) \<noteq> 3 \<and>
   fst (scheduleChunk (bubble_step (feed started_player [(0, ''AAAAAAAA'')]) 3 StopAudio)
          3 ''AAAAAA'') = Some 1"
proof -
  have 1: "nextStartTimeRef (feed started_player [(0, ''AAAAAAAA'')]) = 1 / 8000"
    by code_simp
  have 2: "nextStartTimeRef (bubble_step (feed started_player [(0, ''AAAAAAAA'')]) 3 StopAudio) = 0"
    by (simp add: stopAudio_def)
  have 3: "fst (scheduleChunk (bubble_step (feed started_player [(0, ''AAAAAAAA'')]) 3 StopAudio)
          3 ''AAAAAA'') = Some 1"
    by code_simp
  show ?thesis unfolding 1 2 using 3 by simp
qed

text \<open>
  C5 as amended: every operation of the player leaves the cursor where it was or moves
  it forward, except that \<open>handleSpeak\<close> starting a stream resets it to the device's
  current time, and that \<open>stopAudio\<close> (also when run by a click while speaking or by the
  unmount cleanup) resets it to zero. In the voice session \<open>onmessage\<close> never moves the
  cursor backwards and no other handler writes it.
\<close>

theorem C5_cursor_moves:
  "(nextStartTimeRef st \<le> nextStartTimeRef (bubble_step st t ev) \<or>
    (ev = HandleSpeak True \<and> \<not> isSpeaking st \<and> \<not> isLoadingAudio st \<and>
       nextStartTimeRef (bubble_step st t ev) = t) \<or>
    ((ev = StopAudio \<or> ev = Cleanup \<or> (\<exists>hasText. ev = HandleSpeak hasText \<and> isSpeaking st)) \<and>
       nextStartTimeRef (bubble_step st t ev) = 0)) \<and>
   lv_nextStartTimeRef lv \<le>
     lv_nextStartTimeRef (case onmessage lv t rnd msg of Inl e \<Rightarrow> lv | Inr lv' \<Rightarrow> lv') \<and>
   lv_nextStartTimeRef (live_effect lv isOpen hasApiKey granted resolved) = lv_nextStartTimeRef lv \<and>
   lv_nextStartTimeRef (onopen lv) = lv_nextStartTimeRef lv \<and>
   lv_nextStartTimeRef (toggleMute lv) = lv_nextStartTimeRef lv \<and>
   lv_nextStartTimeRef (onaudioprocess lv inputData) = lv_nextStartTimeRef lv \<and>
   lv_nextStartTimeRef (onclose lv) = lv_nextStartTimeRef lv \<and>
   lv_nextStartTimeRef (onerror lv) = lv_nextStartTimeRef lv \<and>
   lv_nextStartTimeRef (live_cleanup lv) = lv_nextStartTimeRef lv"
proof -
  have b: "nextStartTimeRef st \<le> nextStartTimeRef (bubble_step st t ev) \<or>
    (ev = HandleSpeak True \<and> \<not> isSpeaking st \<and> \<not> isLoadingAudio st \<and>
       nextStartTimeRef (bubble_step st t ev) = t) \<or>
    ((ev = StopAudio \<or> ev = Cleanup \<or> (\<exists>hasText. ev = HandleSpeak hasText \<and> isSpeaking st)) \<and>
       nextStartTimeRef (bubble_step st t ev) = 0)"
  proof (cases ev)
    case (HandleSpeak hasText)
    then show ?thesis by (auto simp add: handleSpeak_def stopAudio_def)
  next
    case (AudioChunk first chunk)
    then show ?thesis using onAudioChunk_cursor[of st first t chunk] by simp
  next
    case (StreamFinished active)
    then show ?thesis by (simp add: streamFinished_cursor)
  next
    case (SourceEnded i)
    then show ?thesis by (simp add: source_ended_cursor)
  next
    case StopAudio
    then show ?thesis by (simp add: stopAudio_def)
  next
    case Cleanup
    then show ?thesis by (simp add: bubble_cleanup_cursor)
  qed
  have 1: "lv_nextStartTimeRef (live_effect lv isOpen hasApiKey granted resolved) = lv_nextStartTimeRef lv"
    by (simp add: live_effect_def connect_def Let_def split: option.splits)
  have 2: "lv_nextStartTimeRef (onopen lv) = lv_nextStartTimeRef lv"
    by (simp add: onopen_def)
  have 3: "lv_nextStartTimeRef (onaudioprocess lv inputData) = lv_nextStartTimeRef lv"
    by (simp add: onaudioprocess_def)
  have 4: "lv_nextStartTimeRef (onclose lv) = lv_nextStartTimeRef lv"
    by (simp add: onclose_def)
  have 5: "lv_nextStartTimeRef (onerror lv) = lv_nextStartTimeRef lv"
    by (simp add: onerror_def)
  have 6: "lv_nextStartTimeRef (live_cleanup lv) = lv_nextStartTimeRef lv"
    by (rule live_cleanup_fields(5))
  have 7: "lv_nextStartTimeRef (toggleMute lv) = lv_nextStartTimeRef lv"
    by (simp add: toggleMute_def)
  show ?thesis using b onmessage_cursor[of lv t rnd msg] 1 2 3 4 5 6 7 by blast
qed

theorem C5_cursor_moves_witness:
  "nextStartTimeRef (feed started_player [(0, ''AAAAAAAA'')]) = 1 / 8000 \<and>
   nextStartTimeRef (feed started_player [(0, ''AAAAAAAA'')])
     \<le> nextStartTimeRef (bubble_step (feed started_player [(0, ''AAAAAAAA'')])
           3 (AudioChunk False ''AAAAAA'')) \<and>
   lv_nextStartTimeRef connected_session
     \<le> lv_nextStartTimeRef
          (case onmessage connected_session 3 0 (Some ''AAAAAA'')
           of Inl e \<Rightarrow> connected_session | Inr lv' \<Rightarrow> lv')"
proof -
  have 1: "nextStartTimeRef (feed started_player [(0, ''AAAAAAAA'')]) = 1 / 8000"
    by code_simp
  have 2: "AudioChunk False ''AAAAAA'' \<noteq> HandleSpeak h"
    "AudioChunk False ''AAAAAA'' \<noteq> StopAudio" "AudioChunk False ''AAAAAA'' \<noteq> Cleanup" for h
    by simp_all
  show ?thesis
    using 1 2 C5_cursor_moves[where st = "feed started_player [(0, ''AAAAAAAA'')]"
        and t = 3 and ev = "AudioChunk False ''AAAAAA''"
        and lv = connected_session and rnd = 0 and msg = "Some ''AAAAAA''"]
    by blast
qed

subsection \<open>C6: malformed inbound chunks\<close>

text \<open>
  C6: a malformed chunk (text that is not valid base64, or an odd number of bytes) makes
  decoding fail instead of yielding samples; the fragment is dropped and logged, later
  fragments play on and the session does not move to the error state. \<open>scheduleChunk\<close>
  does this: its \<open>catch\<close> logs the error and returns \<open>null\<close>, nothing but the log
  changes, and the next chunk is scheduled as if the malformed one had never arrived
  (\<open>scheduleChunk_malformed\<close>, \<open>scheduleChunk_after_malformed\<close>). \<open>onmessage\<close> calls
  \<open>decodeAudioData\<close> outside any \<open>try\<close>: the error leaves the handler, nothing is logged
  and the rest of the handler is skipped (\<open>onmessage_malformed\<close>); the state, the status
  included, is untouched. The theorem evaluates both at the chunk \<open>AAAA\<close>, which is valid
  base64 for three bytes.
\<close>

theorem C6_malformed_chunk:
  "\<not> well_formed ''AAAA'' \<and>
   scheduleChunk started_player 0 ''AAAA'' = (None, started_player\<lparr>console := [RangeError]\<rparr>) \<and>
   onmessage connected_session 0 0 (Some ''AAAA'') = Inl RangeError"
proof -
  have w: "\<not> well_formed ''AAAA''" by code_simp
  have d: "decodeAudioData ''AAAA'' = Inl RangeError" by code_simp
  have a: "audioContextRef started_player = Some Running" by code_simp
  have c: "console started_player = []" by code_simp
  have m: "mountedRef connected_session" by code_simp
  have l: "lv_audioContextRef connected_session = Some Running" by code_simp
  have 1: "scheduleChunk started_player 0 ''AAAA'' = (None, started_player\<lparr>console := [RangeError]\<rparr>)"
    by (simp add: scheduleChunk_def d a c)
  have 2: "onmessage connected_session 0 0 (Some ''AAAA'') = Inl RangeError"
    by (simp add: onmessage_def d m l)
  show ?thesis using w 1 2 by blast
qed

subsection \<open>C7: teardown\<close>

text \<open>
  C7: when the session leaves the connected state through an error or a close, every
  owned resource (input device, audio processing graph, output context) is released
  exactly once, and a second teardown is a no-op that never raises, also on a session
  that was stopped already or never started. The cleanup of the text-to-speech player
  does this: it halts the pending nodes, closes its context after checking that it is not
  closed, and run twice is the same as run once. The cleanup of the voice session does
  not. It stops the tracks, disconnects both capture nodes and closes the output context,
  but the capture context \<open>onopen\<close> created is kept in no ref and is never closed
  (\<open>live_cleanup_inputCtx\<close>, \<open>released_live_cleanup\<close>); and it calls \<open>close()\<close> without
  looking at the state of the context, so a second run gets a rejected promise
  (\<open>live_cleanup_twice\<close>). The theorem evaluates both components: the voice session
  the server closed, torn down when the modal closes and again when it is reopened or
  unmounted; the same session left through \<open>onerror\<close>, which releases nothing itself, and
  its cleanup; the player with one fragment pending; and the two never-started states.
\<close>

theorem C7_teardown:
  "status connected_session = StConnected \<and>
   mediaStreamRef closed_session = Some [TrackEnded] \<and>
   processorRef closed_session = Some Unwired \<and>
   sourceRef closed_session = Some Unwired \<and>
   lv_audioContextRef closed_session = Some Closed \<and>
   inputCtx closed_session = Some Running \<and>
   \<not> released closed_session \<and>
   rejected closed_session = [] \<and>
   live_cleanup closed_session
     = closed_session\<lparr>mountedRef := False, rejected := [InvalidStateError]\<rparr> \<and>
   onerror connected_session = connected_session\<lparr>status := StError\<rparr> \<and>
   mediaStreamRef (onerror connected_session) = Some [TrackLive] \<and>
   inputCtx (live_cleanup (onerror connected_session)) = Some Running \<and>
   \<not> released (live_cleanup (onerror connected_session)) \<and>
   map playback (nodes (feed started_player [(0, ''AAAAAA'')])) = [Scheduled] \<and>
   sourcesRef (feed started_player [(0, ''AAAAAA'')]) = [0] \<and>
   audioContextRef (feed started_player [(0, ''AAAAAA'')]) = Some Running \<and>
   map playback (nodes (bubble_cleanup (feed started_player [(0, ''AAAAAA'')]))) = [Halted] \<and>
   sourcesRef (bubble_cleanup (feed started_player [(0, ''AAAAAA'')])) = [] \<and>
   audioContextRef (bubble_cleanup (feed started_player [(0, ''AAAAAA'')])) = Some Closed \<and>
   bubble_cleanup (bubble_cleanup (feed started_player [(0, ''AAAAAA'')]))
     = bubble_cleanup (feed started_player [(0, ''AAAAAA'')]) \<and>
   live_cleanup live_init = live_init\<lparr>mountedRef := False\<rparr> \<and>
   bubble_cleanup bubble_init = bubble_init"
proof -
  have 1: "status connected_session = StConnected" by code_simp
  have 2: "mediaStreamRef closed_session = Some [TrackEnded]" by code_simp
  have 3: "processorRef closed_session = Some Unwired" by code_simp
  have 4: "sourceRef closed_session = Some Unwired" by code_simp
  have 5: "lv_audioContextRef closed_session = Some Closed" by code_simp
  have 6: "inputCtx closed_session = Some Running" by code_simp
  have 7: "\<not> released closed_session" by (simp add: released_def 6)
  have 8: "rejected closed_session = []" by code_simp
  have 9: "live_cleanup closed_session
             = closed_session\<lparr>mountedRef := False, rejected := [InvalidStateError]\<rparr>"
    by code_simp
  have 10: "onerror connected_session = connected_session\<lparr>status := StError\<rparr>" by code_simp
  have 11: "mediaStreamRef (onerror connected_session) = Some [TrackLive]" by code_simp
  have 12: "inputCtx (live_cleanup (onerror connected_session)) = Some Running" by code_simp
  have 13: "\<not> released (live_cleanup (onerror connected_session))"
    by (simp add: released_def 12)
  have 14: "map playback (nodes (feed started_player [(0, ''AAAAAA'')])) = [Scheduled]"
    by code_simp
  have 15: "sourcesRef (feed started_player [(0, ''AAAAAA'')]) = [0]" by code_simp
  have 16: "audioContextRef (feed started_player [(0, ''AAAAAA'')]) = Some Running" by code_simp
  have 17: "map playback (nodes (bubble_cleanup (feed started_player [(0, ''AAAAAA'')]))) = [Halted]"
    by code_simp
  have 18: "sourcesRef (bubble_cleanup (feed started_player [(0, ''AAAAAA'')])) = []"
    by (rule bubble_cleanup_sourcesRef)
  have 19: "audioContextRef (bubble_cleanup (feed started_player [(0, ''AAAAAA'')])) = Some Closed"
    by code_simp
  have 20: "bubble_cleanup (bubble_cleanup (feed started_player [(0, ''AAAAAA'')]))
              = bubble_cleanup (feed started_player [(0, ''AAAAAA'')])"
    by (rule bubble_cleanup_twice)
  show ?thesis
    apply (intro conjI)
                        apply (rule 1)
                        apply (rule 2)
                        apply (rule 3)
                        apply (rule 4)
                        apply (rule 5)
                        apply (rule 6)
                        apply (rule 7)
                        apply (rule 8)
                        apply (rule 9)
                        apply (rule 10)
                        apply (rule 11)
                        apply (rule 12)
                        apply (rule 13)
                        apply (rule 14)
                        apply (rule 15)
                        apply (rule 16)
                        apply (rule 17)
                        apply (rule 18)
                        apply (rule 19)
                        apply (rule 20)
                       apply (rule live_cleanup_init)
                      apply (rule bubble_cleanup_init)
    done
qed

subsection \<open>C8: a fragment arriving after a stall\<close>

text \<open>
  C8: a chunk that decodes to a non-empty fragment of duration \<open>d\<close> and arrives when the
  clock is 1.0 s past the cursor is started at its arrival time, not at the stale
  cursor, so 1.0 s of silence lies between the cursor and its start, and the cursor
  becomes arrival time plus \<open>d\<close>. Exactly one node is added to the device (no filler),
  and whatever the clock reading, the call schedules the fragment and reports no error:
  \<open>scheduleChunk\<close> returns the node and logs nothing, \<open>onmessage\<close> returns normally and
  leaves the status as it was.
\<close>

theorem C8_stall_schedules_at_arrival:
  assumes "decodeAudioData chunk = Inr frame" and "frame \<noteq> []"
    and "audioContextRef st \<noteq> None"
    and "mountedRef lv" and "lv_audioContextRef lv \<noteq> None"
  shows
   "scheduleChunk st (nextStartTimeRef st + 1) chunk =
      (Some (length (nodes st)),
       st\<lparr>nodes := nodes st @
                [\<lparr>buffer = frame, startTime = nextStartTimeRef st + 1, playback = Scheduled,
                  onended = RemoveFromPending\<rparr>],
          nextStartTimeRef := nextStartTimeRef st + 1 + duration frame,
          sourcesRef := sourcesRef st @ [length (nodes st)]\<rparr>) \<and>
    onmessage lv (lv_nextStartTimeRef lv + 1) rnd (Some chunk) =
      Inr (lv\<lparr>lv_nodes := lv_nodes lv @
                 [\<lparr>buffer = frame, startTime = lv_nextStartTimeRef lv + 1, playback = Scheduled,
                   onended = NoHandler\<rparr>],
              lv_nextStartTimeRef := lv_nextStartTimeRef lv + 1 + duration frame,
              volumeLevel := Some (rnd * 0.5 + 0.3),
              pendingVolumeResets := Suc (pendingVolumeResets lv)\<rparr>) \<and>
    (\<forall>t. \<exists>st'. scheduleChunk st t chunk = (Some (length (nodes st)), st') \<and>
            length (nodes st') = Suc (length (nodes st)) \<and> console st' = console st) \<and>
    (\<forall>t. \<exists>lv'. onmessage lv t rnd (Some chunk) = Inr lv' \<and>
            length (lv_nodes lv') = Suc (length (lv_nodes lv)) \<and> status lv' = status lv)"
proof -
  have buf: "createBuffer frame = Inr frame"
    using assms(2) by (simp add: createBuffer_def)
  have ne: "chunk \<noteq> []"
    using assms(1,2) decode_empty by auto
  obtain c where c: "audioContextRef st = Some c" using assms(3) by auto
  obtain c' where c': "lv_audioContextRef lv = Some c'" using assms(5) by auto
  have 1: "scheduleChunk st t chunk =
      (Some (length (nodes st)),
       st\<lparr>nodes := nodes st @
                [\<lparr>buffer = frame, startTime = max t (nextStartTimeRef st), playback = Scheduled,
                  onended = RemoveFromPending\<rparr>],
          nextStartTimeRef := max t (nextStartTimeRef st) + duration frame,
          sourcesRef := sourcesRef st @ [length (nodes st)]\<rparr>)" for t
    by (simp add: scheduleChunk_def c assms(1) buf Let_def)
  have 2: "onmessage lv t rnd (Some chunk) =
      Inr (lv\<lparr>lv_nodes := lv_nodes lv @
                 [\<lparr>buffer = frame, startTime = max t (lv_nextStartTimeRef lv), playback = Scheduled,
                   onended = NoHandler\<rparr>],
              lv_nextStartTimeRef := max t (lv_nextStartTimeRef lv) + duration frame,
              volumeLevel := Some (rnd * 0.5 + 0.3),
              pendingVolumeResets := Suc (pendingVolumeResets lv)\<rparr>)" for t
    by (simp add: onmessage_def c' assms(1,4) ne buf Let_def)
  show ?thesis
    using 1[of "nextStartTimeRef st + 1"] 2[of "lv_nextStartTimeRef lv + 1"] 1 2
    by simp
qed

text \<open>
  Tried on a player whose cursor is \<open>1/12000\<close> after a fragment of two samples, and on
  the connected session, with a chunk of three samples.
\<close>

theorem C8_stall_schedules_at_arrival_witness:
  "decodeAudioData ''AAAAAAAA'' = Inr [0, 0, 0] \<and>
   audioContextRef (feed started_player [(0, ''AAAAAA'')]) \<noteq> None \<and>
   mountedRef connected_session \<and>
   lv_audioContextRef connected_session \<noteq> None \<and>
   nextStartTimeRef (feed started_player [(0, ''AAAAAA'')]) = 1 / 12000 \<and>
   fst (scheduleChunk (feed started_player [(0, ''AAAAAA'')]) (1 / 12000 + 1) ''AAAAAAAA'') = Some 1 \<and>
   nextStartTimeRef (snd (scheduleChunk (feed started_player [(0, ''AAAAAA'')])
          (1 / 12000 + 1) ''AAAAAAAA'')) = 1 / 12000 + 1 + duration [0, 0, 0] \<and>
   (\<exists>lv'. onmessage connected_session (0 + 1) (1 / 2) (Some ''AAAAAAAA'') = Inr lv' \<and>
          lv_nextStartTimeRef lv' = 0 + 1 + duration [0, 0, 0])"
proof -
  let ?S = "feed started_player [(0, ''AAAAAA'')]"
  let ?L = "connected_session"
  have d: "decodeAudioData ''AAAAAAAA'' = Inr [0, 0, 0]" by code_simp
  have n: "[0, 0, 0 :: real] \<noteq> []" by simp
  have a: "audioContextRef ?S \<noteq> None" by code_simp
  have m: "mountedRef ?L" by code_simp
  have l: "lv_audioContextRef ?L \<noteq> None" by code_simp
  have c: "nextStartTimeRef ?S = 1 / 12000" by code_simp
  have k: "length (nodes ?S) = 1" by code_simp
  have z: "lv_nextStartTimeRef ?L = 0" by code_simp
  note w = C8_stall_schedules_at_arrival[OF d n a m l, of "1 / 2"]
  from w have 1: "scheduleChunk ?S (nextStartTimeRef ?S + 1) ''AAAAAAAA'' =
      (Some (length (nodes ?S)),
       ?S\<lparr>nodes := nodes ?S @
                [\<lparr>buffer = [0, 0, 0], startTime = nextStartTimeRef ?S + 1, playback = Scheduled,
                  onended = RemoveFromPending\<rparr>],
          nextStartTimeRef := nextStartTimeRef ?S + 1 + duration [0, 0, 0],
          sourcesRef := sourcesRef ?S @ [length (nodes ?S)]\<rparr>)"
    by blast
  from w have 2: "onmessage ?L (lv_nextStartTimeRef ?L + 1) (1 / 2) (Some ''AAAAAAAA'') =
      Inr (?L\<lparr>lv_nodes := lv_nodes ?L @
                 [\<lparr>buffer = [0, 0, 0], startTime = lv_nextStartTimeRef ?L + 1, playback = Scheduled,
                   onended = NoHandler\<rparr>],
              lv_nextStartTimeRef := lv_nextStartTimeRef ?L + 1 + duration [0, 0, 0],
              volumeLevel := Some (1 / 2 * 0.5 + 0.3),
              pendingVolumeResets := Suc (pendingVolumeResets ?L)\<rparr>)"
    by blast
  have g: "nextStartTimeRef (S\<lparr>nodes := x, nextStartTimeRef := y, sourcesRef := z\<rparr>) = y"
    for S :: bubble and x y z by simp
  have g': "lv_nextStartTimeRef (L\<lparr>lv_nodes := x, lv_nextStartTimeRef := y, volumeLevel := v,
      pendingVolumeResets := r\<rparr>) = y"
    for L :: live and x y v r by simp
  have 3: "fst (scheduleChunk ?S (1 / 12000 + 1) ''AAAAAAAA'') = Some 1"
    using 1 by (simp only: c k fst_conv)
  have 4: "nextStartTimeRef (snd (scheduleChunk ?S (1 / 12000 + 1) ''AAAAAAAA'')) =
        1 / 12000 + 1 + duration [0, 0, 0]"
    using 1 by (simp only: c snd_conv g)
  have 5: "\<exists>lv'. onmessage ?L (0 + 1) (1 / 2) (Some ''AAAAAAAA'') = Inr lv' \<and>
          lv_nextStartTimeRef lv' = 0 + 1 + duration [0, 0, 0]"
    using 2 g' by (simp only: z) blast
  show ?thesis using d a m l c 3 4 5 by blast
qed

subsection \<open>C9: the loudness value\<close>

text \<open>
  C9: for every input frame the loudness \<open>min(rms * 5, 1)\<close>, which an unmuted handler
  publishes, lies in \<open>[0, 1]\<close>; it is exactly 0 for a frame of zeros and exactly 1 for a
  full-scale frame (every sample 1 or -1). A frame is never empty: the processor is
  created with a buffer size of 4096 samples. (For an empty frame the mean would be
  \<open>0/0\<close>, not a number.)
\<close>

theorem C9_loudness_in_unit_interval:
  assumes "inputData \<noteq> []"
  shows "\<exists>v. loudness inputData = Some v \<and>
           volumeLevel (onaudioprocess (st\<lparr>isMuted := False\<rparr>) inputData) = Some v \<and>
           0 \<le> v \<and> v \<le> 1 \<and>
           ((\<forall>x\<in>set inputData. x = 0) \<longrightarrow> v = 0) \<and>
           ((\<forall>x\<in>set inputData. \<bar>x\<bar> = 1) \<longrightarrow> v = 1)"
proof -
  let ?sum = "\<Sum>x\<leftarrow>inputData. x * x"
  let ?rms = "sqrt (?sum / real (length inputData))"
  let ?v = "min (?rms * 5) 1"
  have n: "0 < real (length inputData)" using assms by simp
  have l: "loudness inputData = Some ?v" using assms by (rule loudness_Some)
  have p: "volumeLevel (onaudioprocess (st\<lparr>isMuted := False\<rparr>) inputData) = Some ?v"
    by (simp add: onaudioprocess_def l)
  have "0 \<le> ?rms" using sum_squares_nonneg[of inputData] by simp
  then have r: "0 \<le> ?v \<and> ?v \<le> 1" by simp
  have z: "?v = 0" if "\<forall>x\<in>set inputData. x = 0"
    using sum_squares_zero[OF that] by simp
  have f: "?v = 1" if "\<forall>x\<in>set inputData. \<bar>x\<bar> = 1"
  proof -
    have eq: "?sum = real (length inputData)" using that by (rule sum_squares_full)
    have q: "?sum / real (length inputData) = 1" unfolding eq using n by simp
    have rms: "?rms = 1" unfolding q by simp
    show ?thesis unfolding rms by simp
  qed
  show ?thesis using l p r z f by blast
qed

text \<open>Tried on frames of 4096 zeros and of 4096 samples at negative full scale.\<close>

theorem C9_loudness_in_unit_interval_witness:
  "replicate 4096 (0 :: real) \<noteq> [] \<and> replicate 4096 (- 1 :: real) \<noteq> [] \<and>
   loudness (replicate 4096 0) = Some 0 \<and>
   volumeLevel (onaudioprocess (connected_session\<lparr>isMuted := False\<rparr>) (replicate 4096 0)) = Some 0 \<and>
   loudness (replicate 4096 (- 1)) = Some 1"
proof -
  have z: "replicate 4096 (0 :: real) \<noteq> []" and f: "replicate 4096 (- 1 :: real) \<noteq> []"
    by simp_all
  have az: "\<forall>x\<in>set (replicate 4096 (0 :: real)). x = 0" by simp
  have af: "\<forall>x\<in>set (replicate 4096 (- 1 :: real)). \<bar>x\<bar> = 1" by simp
  from C9_loudness_in_unit_interval[OF z, of connected_session] obtain v where
    v: "loudness (replicate 4096 0) = Some v"
       "volumeLevel (onaudioprocess (connected_session\<lparr>isMuted := False\<rparr>) (replicate 4096 0)) = Some v"
       "(\<forall>x\<in>set (replicate 4096 (0 :: real)). x = 0) \<longrightarrow> v = 0"
    by blast
  have "v = 0" using v(3) az by blast
  then have 1: "loudness (replicate 4096 0) = Some 0 \<and>
     volumeLevel (onaudioprocess (connected_session\<lparr>isMuted := False\<rparr>) (replicate 4096 0)) = Some 0"
    using v(1,2) by simp
  from C9_loudness_in_unit_interval[OF f, of connected_session] obtain u where
    u: "loudness (replicate 4096 (- 1)) = Some u"
       "(\<forall>x\<in>set (replicate 4096 (- 1 :: real)). \<bar>x\<bar> = 1) \<longrightarrow> u = 1"
    by blast
  have "u = 1" using u(2) af by blast
  then have 2: "loudness (replicate 4096 (- 1)) = Some 1"
    using u(1) by simp
  show ?thesis using z f 1 2 by blast
qed

subsection \<open>C10: range of decoded samples\<close>

text \<open>
  C10: for every well-formed encoded chunk, \<open>decodeAudioData\<close> returns and every sample it
  returns lies in \<open>[-1, 32767/32768]\<close>, so below 1; and for every sample sequence \<open>x\<close>,
  also one with values outside \<open>[-1, 1]\<close>, \<open>decodeAudioData (encodeAudio x)\<close> returns as
  many samples as \<open>x\<close> has, all in that range.
\<close>

theorem C10_decoded_samples_in_range:
  "(well_formed chunk \<longrightarrow>
      (\<exists>samples. decodeAudioData chunk = Inr samples \<and>
         (\<forall>y\<in>set samples. - 1 \<le> y \<and> y \<le> 32767 / 32768 \<and> y < 1))) \<and>
   (\<exists>samples. decodeAudioData (encodeAudio x) = Inr samples \<and> length samples = length x \<and>
         (\<forall>y\<in>set samples. - 1 \<le> y \<and> y \<le> 32767 / 32768 \<and> y < 1))"
proof (intro conjI impI)
  assume "well_formed chunk"
  then obtain samples where s: "decodeAudioData chunk = Inr samples"
    using well_formed_decodes by blast
  have "\<forall>y\<in>set samples. - 1 \<le> y \<and> y \<le> 32767 / 32768 \<and> y < 1"
    using decodeAudioData_range[OF s] by fastforce
  with s show "\<exists>samples. decodeAudioData chunk = Inr samples \<and>
         (\<forall>y\<in>set samples. - 1 \<le> y \<and> y \<le> 32767 / 32768 \<and> y < 1)"
    by blast
next
  let ?ys = "map (\<lambda>s. from_int16 (pcm16 s) / 32768) x"
  have s: "decodeAudioData (encodeAudio x) = Inr ?ys" by (rule decode_encode)
  have "\<forall>y\<in>set ?ys. - 1 \<le> y \<and> y \<le> 32767 / 32768 \<and> y < 1"
    using decodeAudioData_range[OF s] by fastforce
  with s show "\<exists>samples. decodeAudioData (encodeAudio x) = Inr samples \<and> length samples = length x \<and>
         (\<forall>y\<in>set samples. - 1 \<le> y \<and> y \<le> 32767 / 32768 \<and> y < 1)"
    by simp
qed

text \<open>
  Tried on the chunk \<open>/38=\<close> (the bytes FF 7F, the largest 16-bit sample) and on the
  samples 2 and -3, which lie outside \<open>[-1, 1]\<close>.
\<close>

theorem C10_decoded_samples_in_range_witness:
  "well_formed ''/38='' \<and>
   (\<exists>samples. decodeAudioData ''/38='' = Inr samples \<and>
      (\<forall>y\<in>set samples. - 1 \<le> y \<and> y \<le> 32767 / 32768 \<and> y < 1)) \<and>
   (\<exists>samples. decodeAudioData (encodeAudio [2, - 3]) = Inr samples \<and>
      length samples = length [2, - 3 :: real] \<and>
      (\<forall>y\<in>set samples. - 1 \<le> y \<and> y \<le> 32767 / 32768 \<and> y < 1))"
proof -
  have wf: "well_formed ''/38=''" by code_simp
  show ?thesis
    using wf C10_decoded_samples_in_range[of "''/38=''" "[2, - 3]"] by blast
qed

end
